theory Spec2Isabelle
  imports Complex_Main
begin

section \<open>Force-directed label placement (class LabelManager)\<close>

text \<open>
  The development embeds the richest variant of the label manager
  (\<^verbatim>\<open>src/unnamed/part_000\<close>): the geometry helpers, the vertex-selection pass of
  \<^verbatim>\<open>setLabels\<close> and \<^verbatim>\<open>updateAllLabels\<close>, the physics step \<^verbatim>\<open>simulateStep\<close> and the
  animation-frame scheduler \<^verbatim>\<open>startSimulation\<close> / \<^verbatim>\<open>stopSimulation\<close>.

  JavaScript numbers are modelled by \<^typ>\<open>real\<close>: rounding, overflow and NaN are outside
  the model. The quotients of the source are guarded by the source's own tests, which are
  kept in the model. The one quotient whose test does not always keep the divisor away
  from zero is \<^verbatim>\<open>maxDist / vertexDist\<close> of the clamp to the anchor: its test
  \<^verbatim>\<open>vertexDist > maxDist\<close> does so when \<^verbatim>\<open>maxLabelDistance\<close> is not negative, and the
  statements about the clamp assume that.
\<close>

subsection \<open>Data\<close>

text \<open>
  Plain \<^verbatim>\<open>{lat, lon}\<close> objects (vertices, forces, velocities, previous positions) and
  Leaflet's \<^verbatim>\<open>LatLng\<close> objects \<^verbatim>\<open>{lat, lng}\<close> are both values of \<open>coord\<close>; the field
  \<^verbatim>\<open>lng\<close> is written \<open>lon\<close>.
\<close>

record coord =
  lat :: real
  lon :: real

text \<open>An entry of \<^verbatim>\<open>labeledVertices\<close>: \<^verbatim>\<open>{lat, lon, angle}\<close>.\<close>

record labeled = coord +
  angle :: real

text \<open>A bounding box \<^verbatim>\<open>{left, right, bottom, top}\<close>.\<close>

record box =
  bLeft :: real
  bRight :: real
  bBottom :: real
  bTop :: real

text \<open>
  A label object. \<open>labelText\<close> is the field \<^verbatim>\<open>text\<close>. A label built by \<^verbatim>\<open>setLabels\<close> has
  no field \<^verbatim>\<open>manuallyPositioned\<close>; the only use of the field is the truthiness test of
  \<^verbatim>\<open>simulateStep\<close>, so the missing field is \<open>False\<close>.
\<close>

record label =
  key :: string
  polygonId :: nat
  vertexIndex :: nat
  vertexLatLng :: coord
  labelLatLng :: coord
  labelText :: string
  width :: real
  height :: real
  polygonVertices :: "coord list"
  manuallyPositioned :: bool

text \<open>
  A polygon as the map manager hands it over (\<open>pid\<close>, \<open>phull\<close> and \<open>pname\<close> are its \<^verbatim>\<open>id\<close>,
  \<^verbatim>\<open>hull\<close> and \<^verbatim>\<open>name\<close>). A missing \<^verbatim>\<open>hull\<close> is the empty list: every
  function below treats the two alike (\<^verbatim>\<open>!polygon.hull || polygon.hull.length === 0\<close>).
\<close>

record polygon =
  pid :: nat
  phull :: "coord list"
  pname :: string

text \<open>The tunable settings of the constructor.\<close>

record settings =
  initialOffset :: real
  minVertexDistance :: real
  springStrength :: real
  minLabelSpacing :: real
  iterations :: real
  damping :: real
  maxLabelDistance :: real
  minVertexAngle :: real
  eqVertex :: real
  eqLabel :: real
  eqCenter :: real
  eqFalloff :: real

definition defaultSettings :: settings where
  "defaultSettings =
     \<lparr>initialOffset = 15, minVertexDistance = 30, springStrength = 1 / 10,
      minLabelSpacing = 40, iterations = 200, damping = 6 / 10, maxLabelDistance = 80,
      minVertexAngle = 10, eqVertex = 20, eqLabel = 30, eqCenter = 100, eqFalloff = 3\<rparr>"

text \<open>
  What the manager reads from the Leaflet map: \<^verbatim>\<open>map.getBounds()\<close> with its four edges and
  \<^verbatim>\<open>map.getZoom()\<close>.
\<close>

record mapView =
  south :: real
  north :: real
  west :: real
  east :: real
  zoom :: real

text \<open>\<^verbatim>\<open>bounds.contains(L.latLng(lat, lon))\<close> and \<^verbatim>\<open>bounds.getCenter().lat\<close> of Leaflet.\<close>

definition boundsContains :: "mapView \<Rightarrow> real \<Rightarrow> real \<Rightarrow> bool" where
  "boundsContains v la lo \<longleftrightarrow>
     south v \<le> la \<and> la \<le> north v \<and> west v \<le> lo \<and> lo \<le> east v"

definition boundsCenterLat :: "mapView \<Rightarrow> real" where
  "boundsCenterLat v = (south v + north v) / 2"

text \<open>
  The two pixel-to-degree conversions: \<^verbatim>\<open>simulateStep\<close> uses latitude 0, the
  vertex-selection passes use the latitude of the centre of the view.
\<close>

definition metersPerPixel :: "real \<Rightarrow> real \<Rightarrow> real" where
  "metersPerPixel latDeg z = 156543.03392 * cos (latDeg * pi / 180) / (2 powr z)"

definition pixelsToDegrees :: "real \<Rightarrow> real \<Rightarrow> real" where
  "pixelsToDegrees mpp pixels = (mpp * pixels) / 111320"

definition stepScale :: "mapView \<Rightarrow> real" where
  "stepScale v = 156543.03392 * cos 0 / (2 powr zoom v)"

definition viewScale :: "mapView \<Rightarrow> real" where
  "viewScale v = metersPerPixel (boundsCenterLat v) (zoom v)"

subsection \<open>Geometry helpers\<close>

text \<open>
  \<^verbatim>\<open>calculateVertexAngle(vertices, index)\<close>. The index \<^verbatim>\<open>(index - 1 + n) % n\<close> is written
  with the subtraction last, since it is computed on naturals here. The square roots, the
  quotient and the arc cosine are exact here and rounded in the source; the only value
  that the source returns without them is the 180 of the degenerate branch. The source
  reads the coordinates of \<^verbatim>\<open>vertices[index]\<close> and fails for an index outside the ring, so
  the statements about this function are made for indices inside the ring.
\<close>

definition calculateVertexAngle :: "coord list \<Rightarrow> nat \<Rightarrow> real" where
  "calculateVertexAngle vertices index =
     (let n = length vertices;
          prev = vertices ! ((index + n - 1) mod n);
          curr = vertices ! index;
          next = vertices ! ((index + 1) mod n);
          v1x = lon prev - lon curr;
          v1y = lat prev - lat curr;
          v2x = lon next - lon curr;
          v2y = lat next - lat curr;
          dot = v1x * v2x + v1y * v2y;
          mag1 = sqrt (v1x * v1x + v1y * v1y);
          mag2 = sqrt (v2x * v2x + v2y * v2y)
      in if mag1 = 0 \<or> mag2 = 0 then 180
         else arccos (max (- 1) (min 1 (dot / (mag1 * mag2)))) * (180 / pi))"

text \<open>
  \<^verbatim>\<open>lineIntersectsBox(y1, x1, y2, x2, box)\<close>. The pair \<open>(t0, t1)\<close> is the clipping interval;
  the left and bottom edges update it with \<open>clipNear\<close>, the right and top edges with
  \<open>clipFar\<close>, each a copy of the source's nested \<^verbatim>\<open>if\<close>.
\<close>

definition clipNear :: "real \<Rightarrow> real \<Rightarrow> real \<times> real \<Rightarrow> real \<times> real" where
  "clipNear d t tt =
     (case tt of (t0, t1) \<Rightarrow>
        if d < 0 then (t0, if t < t1 then t else t1)
        else (if t > t0 then t else t0, t1))"

definition clipFar :: "real \<Rightarrow> real \<Rightarrow> real \<times> real \<Rightarrow> real \<times> real" where
  "clipFar d t tt =
     (case tt of (t0, t1) \<Rightarrow>
        if d < 0 then (if t > t0 then t else t0, t1)
        else (t0, if t < t1 then t else t1))"

definition insideBox :: "box \<Rightarrow> real \<Rightarrow> real \<Rightarrow> bool" where
  "insideBox b x y \<longleftrightarrow> x \<ge> bLeft b \<and> x \<le> bRight b \<and> y \<ge> bBottom b \<and> y \<le> bTop b"

definition lineIntersectsBox :: "real \<Rightarrow> real \<Rightarrow> real \<Rightarrow> real \<Rightarrow> box \<Rightarrow> bool" where
  "lineIntersectsBox y1 x1 y2 x2 b =
     (let dx = x2 - x1; dy = y2 - y1 in
      if (x1 < bLeft b \<and> x2 < bLeft b) \<or> (x1 > bRight b \<and> x2 > bRight b) \<or>
         (y1 < bBottom b \<and> y2 < bBottom b) \<or> (y1 > bTop b \<and> y2 > bTop b)
      then False
      else if insideBox b x1 y1 \<or> insideBox b x2 y2 then True
      else if dx = 0 \<and> (x1 < bLeft b \<or> x1 > bRight b) then False
      else
        let tt = (0, 1);
            tt = (if dx \<noteq> 0 then clipNear dx ((bLeft b - x1) / dx) tt else tt);
            tt = (if dx \<noteq> 0 then clipFar dx ((bRight b - x1) / dx) tt else tt)
        in if dy = 0 \<and> (y1 < bBottom b \<or> y1 > bTop b) then False
           else
             let tt = (if dy \<noteq> 0 then clipNear dy ((bBottom b - y1) / dy) tt else tt);
                 tt = (if dy \<noteq> 0 then clipFar dy ((bTop b - y1) / dy) tt else tt)
             in fst tt \<le> snd tt)"

subsection \<open>Vertex selection: the shared part of \<^verbatim>\<open>setLabels\<close> and \<^verbatim>\<open>updateAllLabels\<close>\<close>

text \<open>
  \<^verbatim>\<open>Array.prototype.findIndex\<close> (\<open>None\<close> for \<^verbatim>\<open>-1\<close>) and \<^verbatim>\<open>splice(i, 1)\<close>.
\<close>

fun findIndex :: "('a \<Rightarrow> bool) \<Rightarrow> 'a list \<Rightarrow> nat option" where
  "findIndex P [] = None"
| "findIndex P (x # xs) =
     (if P x then Some 0 else (case findIndex P xs of None \<Rightarrow> None | Some i \<Rightarrow> Some (Suc i)))"

definition splice1 :: "nat \<Rightarrow> 'a list \<Rightarrow> 'a list" where
  "splice1 i xs = take i xs @ drop (Suc i) xs"

text \<open>\<^verbatim>\<open>estimateLabelWidth(text)\<close>.\<close>

definition estimateLabelWidth :: "string \<Rightarrow> real" where
  "estimateLabelWidth t = real (length t) * 7 + 16"

text \<open>
  The key \<^verbatim>\<open>`${polygon.id}-${index}`\<close>: both numbers in decimal. The label text needs
  \<^verbatim>\<open>Number.prototype.toFixed(6)\<close>, a primitive of the language that has no counterpart on
  \<^typ>\<open>real\<close>: it is the parameter \<open>fmt\<close> of the functions below.
\<close>

fun showNat :: "nat \<Rightarrow> string" where
  "showNat n =
     (if n < 10 then [char_of (48 + n)]
      else showNat (n div 10) @ [char_of (48 + n mod 10)])"

declare showNat.simps [simp del]

definition labelKey :: "nat \<Rightarrow> nat \<Rightarrow> string" where
  "labelKey polyId index = showNat polyId @ ''-'' @ showNat index"

definition vertexText :: "(real \<Rightarrow> string) \<Rightarrow> coord \<Rightarrow> string" where
  "vertexText fmt vertex = fmt (lat vertex) @ '', '' @ fmt (lon vertex)"

text \<open>The predicate of \<^verbatim>\<open>labeledVertices.find\<close>: closer than \<^verbatim>\<open>minVertexDistance\<close>.\<close>

definition closeTo :: "real \<Rightarrow> coord \<Rightarrow> labeled \<Rightarrow> bool" where
  "closeTo minDist vertex l \<longleftrightarrow>
     sqrt ((lat vertex - lat l)\<^sup>2 + (lon vertex - lon l)\<^sup>2) < minDist"

text \<open>The anchor test of the eviction's \<^verbatim>\<open>this.labels.findIndex\<close>.\<close>

definition anchorNear :: "labeled \<Rightarrow> label \<Rightarrow> bool" where
  "anchorNear c l \<longleftrightarrow>
     \<bar>lat (vertexLatLng l) - lat c\<bar> < 0.000001 \<and> \<bar>lon (vertexLatLng l) - lon c\<bar> < 0.000001"

text \<open>
  The centre of the visible vertices (\<^verbatim>\<open>reduce\<close> from 0, divided by the count) and the
  first position of a label: away from that centre by \<^verbatim>\<open>initialOffset\<close>, with the vertical
  jitter of 45 pixels that alternates with the parity of the index.
\<close>

definition centroid :: "coord list \<Rightarrow> coord" where
  "centroid vs =
     \<lparr>lat = foldl (\<lambda>sum c. sum + lat c) 0 vs / real (length vs),
      lon = foldl (\<lambda>sum c. sum + lon c) 0 vs / real (length vs)\<rparr>"

definition verticalOffset :: "mapView \<Rightarrow> nat \<Rightarrow> real" where
  "verticalOffset v index =
     pixelsToDegrees (viewScale v) (if index mod 2 = 1 then - 45 else 45)"

definition initialPosition :: "settings \<Rightarrow> mapView \<Rightarrow> coord \<Rightarrow> coord \<Rightarrow> nat \<Rightarrow> coord" where
  "initialPosition s v centre vertex index =
     (let offs = pixelsToDegrees (viewScale v) (initialOffset s);
          dx = lon vertex - lon centre;
          dy = lat vertex - lat centre;
          dist = sqrt (dx * dx + dy * dy)
      in if dist > 0.00001
         then \<lparr>lat = lat vertex + (dy / dist) * offs + verticalOffset v index,
               lon = lon vertex + (dx / dist) * offs\<rparr>
         else \<lparr>lat = lat vertex + verticalOffset v index, lon = lon vertex + offs\<rparr>)"

text \<open>
  The body of \<^verbatim>\<open>vertexData.forEach\<close>, which the two passes share word for word but for
  the label test of the eviction (\<open>sameLabel\<close>) and the label they push (\<open>new\<close>). The state
  is the pair of \<^verbatim>\<open>labeledVertices\<close> and \<^verbatim>\<open>this.labels\<close>. The object that \<^verbatim>\<open>find\<close> returns
  is the first entry that satisfies the test, so \<^verbatim>\<open>indexOf\<close> of it is \<open>findIndex\<close> of the
  same test. The difference \<^verbatim>\<open>180 - minVertexAngle\<close> of the angle filter is exact here and
  rounded in the source, where it is 180 again for a \<^verbatim>\<open>minVertexAngle\<close> that is positive but
  tiny; the statements about the filter are made on this difference, not on
  \<^verbatim>\<open>minVertexAngle\<close>.
\<close>

definition placeVertex ::
  "settings \<Rightarrow> real \<Rightarrow> (labeled \<Rightarrow> label \<Rightarrow> bool) \<Rightarrow> label \<Rightarrow> coord \<Rightarrow> real \<Rightarrow> bool \<Rightarrow>
   labeled list \<times> label list \<Rightarrow> labeled list \<times> label list" where
  "placeVertex s minDist sameLabel new vertex ang inBounds st =
     (case st of (labeledVertices, ls) \<Rightarrow>
        if \<not> inBounds then st
        else if ang > 180 - minVertexAngle s then st
        else
          let entry = \<lparr>lat = lat vertex, lon = lon vertex, angle = ang\<rparr> in
          (case find (closeTo minDist vertex) labeledVertices of
             None \<Rightarrow> (labeledVertices @ [entry], ls @ [new])
           | Some closeLabeled \<Rightarrow>
               if ang < angle closeLabeled then
                 let labeledVertices' =
                       (case findIndex (closeTo minDist vertex) labeledVertices of
                          None \<Rightarrow> labeledVertices
                        | Some oldIndex \<Rightarrow> splice1 oldIndex labeledVertices);
                     ls' =
                       (case findIndex (sameLabel closeLabeled) ls of
                          None \<Rightarrow> ls
                        | Some oldLabelIndex \<Rightarrow> splice1 oldLabelIndex ls)
                 in (labeledVertices' @ [entry], ls' @ [new])
               else st))"

subsection \<open>The manager's state\<close>

text \<open>
  The closure of one \<^verbatim>\<open>animate\<close>: the variables \<^verbatim>\<open>iterationCount\<close>, \<^verbatim>\<open>previousEnergy\<close>
  (\<open>None\<close> is \<^verbatim>\<open>Infinity\<close>), \<^verbatim>\<open>stableCount\<close>, and the argument \<^verbatim>\<open>polygonsForNames\<close> (\<open>None\<close>
  is \<^verbatim>\<open>null\<close>).
\<close>

record run =
  iterationCount :: nat
  previousEnergy :: "real option"
  stableCount :: nat
  polygonsForNames :: "polygon list option"

text \<open>
  The fields of the class that the physics and the scheduler use. The arrays
  \<^verbatim>\<open>velocities\<close> and \<^verbatim>\<open>previousPositions\<close> are read and written by index only, beyond
  their length too, so they are maps from indices. \<open>frames\<close> is the browser's queue of
  callbacks registered with \<^verbatim>\<open>requestAnimationFrame\<close>. Markers and lines are not
  modelled; the three counters record the calls of \<^verbatim>\<open>simulateStep\<close>,
  \<^verbatim>\<open>renderPolygonNames\<close> and \<^verbatim>\<open>renderDebugFields\<close>.
\<close>

record manager =
  labels :: "label list"
  manuallyPositionedKeys :: "string set"
  isSimulating :: bool
  simulationInterval :: "nat option"
  velocities :: "nat \<rightharpoonup> coord"
  previousPositions :: "nat \<rightharpoonup> coord"
  showDebugFields :: bool
  frames :: "run list"
  stepCalls :: nat
  nameRefreshes :: nat
  debugRefreshes :: nat

subsection \<open>The physics step \<^verbatim>\<open>simulateStep\<close>\<close>

text \<open>
  Throughout, \<open>k\<close> is \<^verbatim>\<open>metersPerPixel\<close> of the step (\<open>stepScale\<close>), so that
  \<open>pixelsToDegrees k\<close> is the source's local \<^verbatim>\<open>pixelsToDegrees\<close>.
\<close>

definition zeroForce :: coord where
  "zeroForce = \<lparr>lat = 0, lon = 0\<rparr>"

text \<open>\<^verbatim>\<open>forces[i].lon += fLon; forces[i].lat += fLat\<close> on one accumulator and in the array.\<close>

definition pushBy :: "real \<Rightarrow> real \<Rightarrow> coord \<Rightarrow> coord" where
  "pushBy fLon fLat f = \<lparr>lat = lat f + fLat, lon = lon f + fLon\<rparr>"

definition addForce :: "nat \<Rightarrow> real \<Rightarrow> real \<Rightarrow> coord list \<Rightarrow> coord list" where
  "addForce i fLon fLat fs = fs[i := pushBy fLon fLat (fs ! i)]"

text \<open>
  Repulsion of one label from one vertex of \<^verbatim>\<open>allVertices\<close> (the body of the inner
  \<^verbatim>\<open>forEach\<close>). \<^verbatim>\<open>Math.pow(dist, falloffExp)\<close> has a positive base under its guard.
\<close>

definition vertexRepulsion :: "settings \<Rightarrow> real \<Rightarrow> label \<Rightarrow> coord \<Rightarrow> coord \<Rightarrow> coord" where
  "vertexRepulsion s k l f vertex =
     (let dx = lon (labelLatLng l) - lon vertex;
          dy = lat (labelLatLng l) - lat vertex;
          dist = sqrt (dx * dx + dy * dy);
          isOwnVertex = (\<bar>lat (vertexLatLng l) - lat vertex\<bar> < 0.000001 \<and>
                         \<bar>lon (vertexLatLng l) - lon vertex\<bar> < 0.000001)
      in if isOwnVertex then f
         else
           let minDist = pixelsToDegrees k 15 in
           if dist < minDist \<and> dist > 0.00001 then
             let repulsionStrength = pixelsToDegrees k (eqVertex s);
                 forceMagnitude = repulsionStrength / (dist powr eqFalloff s)
             in pushBy ((dx / dist) * forceMagnitude) ((dy / dist) * forceMagnitude) f
           else f)"

definition allVertices :: "label list \<Rightarrow> coord list" where
  "allVertices ls = concat (map (\<lambda>l. map (\<lambda>v. \<lparr>lat = lat v, lon = lon v\<rparr>) (polygonVertices l)) ls)"

definition vertexForces :: "settings \<Rightarrow> real \<Rightarrow> label list \<Rightarrow> coord list" where
  "vertexForces s k ls = map (\<lambda>l. foldl (vertexRepulsion s k l) zeroForce (allVertices ls)) ls"

text \<open>
  The collision force of a pair of labels: \<open>None\<close> when the two padded boxes do not
  overlap, otherwise the pair \<open>(fx, fy)\<close> that is subtracted from the first label's
  force and added to the second's.
\<close>

definition labelBox :: "real \<Rightarrow> real \<Rightarrow> label \<Rightarrow> box" where
  "labelBox k bufferPx l =
     (let w = pixelsToDegrees k (width l) / 2;
          h = pixelsToDegrees k (height l) / 2;
          buffer = pixelsToDegrees k bufferPx
      in \<lparr>bLeft = lon (labelLatLng l) - w - buffer,
          bRight = lon (labelLatLng l) + w + buffer,
          bBottom = lat (labelLatLng l) - h - buffer,
          bTop = lat (labelLatLng l) + h + buffer\<rparr>)"

definition pairRepulsion :: "settings \<Rightarrow> real \<Rightarrow> label \<Rightarrow> label \<Rightarrow> (real \<times> real) option" where
  "pairRepulsion s k label1 label2 =
     (let w1 = pixelsToDegrees k (width label1) / 2;
          h1 = pixelsToDegrees k (height label1) / 2;
          w2 = pixelsToDegrees k (width label2) / 2;
          h2 = pixelsToDegrees k (height label2) / 2;
          buffer = pixelsToDegrees k 5;
          box1 = labelBox k 5 label1;
          box2 = labelBox k 5 label2;
          overlapping = (\<not> (bRight box1 < bLeft box2 \<or> bLeft box1 > bRight box2 \<or>
                             bTop box1 < bBottom box2 \<or> bBottom box1 > bTop box2))
      in if overlapping then
           let dx = lon (labelLatLng label2) - lon (labelLatLng label1);
               dy = lat (labelLatLng label2) - lat (labelLatLng label1);
               centerDist = sqrt (dx * dx + dy * dy);
               overlapX = (w1 + w2 + buffer * 2) - \<bar>dx\<bar>;
               overlapY = (h1 + h2 + buffer * 2) - \<bar>dy\<bar>;
               forceMultiplier = eqLabel s / 30;
               fx = (if \<bar>dx\<bar> > 0.00001
                     then (if dx > 0 then 1 else - 1) * overlapX * 0.5 * forceMultiplier
                     else overlapX * 0.5 * forceMultiplier);
               fy = (if \<bar>dy\<bar> > 0.00001
                     then (if dy > 0 then 1 else - 1) * overlapY * 0.5 * forceMultiplier
                     else overlapY * 0.5 * forceMultiplier)
           in if centerDist > 0.00001 then
                let penetrationForce =
                      pixelsToDegrees k (eqLabel s) / (centerDist + pixelsToDegrees k 2)
                in Some (fx + (dx / centerDist) * penetrationForce,
                         fy + (dy / centerDist) * penetrationForce)
              else Some (fx + pixelsToDegrees k 10, fy + pixelsToDegrees k 10)
         else None)"

definition applyPair :: "settings \<Rightarrow> real \<Rightarrow> label list \<Rightarrow> nat \<Rightarrow> coord list \<Rightarrow> nat \<Rightarrow> coord list" where
  "applyPair s k ls i fs j =
     (case pairRepulsion s k (ls ! i) (ls ! j) of
        None \<Rightarrow> fs
      | Some (fx, fy) \<Rightarrow> addForce j fx fy (addForce i (- fx) (- fy) fs))"

text \<open>The spring towards the anchor; odd vertex indices pull twice as hard.\<close>

definition springForce :: "settings \<Rightarrow> label \<Rightarrow> coord \<Rightarrow> coord" where
  "springForce s l f =
     (let dx = lon (vertexLatLng l) - lon (labelLatLng l);
          dy = lat (vertexLatLng l) - lat (labelLatLng l);
          dist = sqrt (dx * dx + dy * dy)
      in if dist > 0.00001 then
           let springMultiplier = (if vertexIndex l mod 2 = 1 then 2 else 1);
               effectiveSpring = springStrength s * springMultiplier
           in pushBy (dx * effectiveSpring) (dy * effectiveSpring) f
         else f)"

text \<open>The push away from the centre of the label's own ring.\<close>

definition centerRepulsion :: "settings \<Rightarrow> real \<Rightarrow> label \<Rightarrow> coord \<Rightarrow> coord" where
  "centerRepulsion s k l f =
     (if polygonVertices l \<noteq> [] then
        let centre = centroid (polygonVertices l);
            centerDx = lon (labelLatLng l) - lon centre;
            centerDy = lat (labelLatLng l) - lat centre;
            centerDist = sqrt (centerDx * centerDx + centerDy * centerDy)
        in if centerDist > 0.00001 then
             let repulsionStrength = pixelsToDegrees k (eqCenter s);
                 forceMagnitude = repulsionStrength / (centerDist powr (eqFalloff s - 1))
             in pushBy ((centerDx / centerDist) * forceMagnitude)
                       ((centerDy / centerDist) * forceMagnitude) f
           else f
      else f)"

text \<open>
  One round of the outer loop over \<open>i\<close>: the pairs \<open>(i, j)\<close> with \<open>j > i\<close>, then the spring
  and the centre repulsion of label \<open>i\<close>.
\<close>

definition labelRound :: "settings \<Rightarrow> real \<Rightarrow> label list \<Rightarrow> coord list \<Rightarrow> nat \<Rightarrow> coord list" where
  "labelRound s k ls fs i =
     (let fs1 = foldl (applyPair s k ls i) fs [Suc i ..< length ls]
      in fs1[i := centerRepulsion s k (ls ! i) (springForce s (ls ! i) (fs1 ! i))])"

text \<open>
  Leader lines: label \<open>i\<close> is pushed away from the middle of the leader line of every
  other label \<open>j\<close> whose line crosses the box of \<open>i\<close> (padded by 2 pixels).
\<close>

definition leaderPush :: "real \<Rightarrow> label list \<Rightarrow> nat \<Rightarrow> coord list \<Rightarrow> nat \<Rightarrow> coord list" where
  "leaderPush k ls i fs j =
     (if i = j then fs
      else
        let l = ls ! i; otherLabel = ls ! j in
        if lineIntersectsBox
             (lat (vertexLatLng otherLabel)) (lon (vertexLatLng otherLabel))
             (lat (labelLatLng otherLabel)) (lon (labelLatLng otherLabel))
             (labelBox k 2 l) \<and> i \<noteq> j
        then
          let lineMidLat = (lat (vertexLatLng otherLabel) + lat (labelLatLng otherLabel)) / 2;
              lineMidLng = (lon (vertexLatLng otherLabel) + lon (labelLatLng otherLabel)) / 2;
              pushDx = lon (labelLatLng l) - lineMidLng;
              pushDy = lat (labelLatLng l) - lineMidLat;
              pushDist = sqrt (pushDx * pushDx + pushDy * pushDy)
          in if pushDist > 0.00001 then
               let pushStrength = pixelsToDegrees k 3
               in addForce i ((pushDx / pushDist) * pushStrength)
                            ((pushDy / pushDist) * pushStrength) fs
             else fs
        else fs)"

definition leaderRound :: "real \<Rightarrow> label list \<Rightarrow> coord list \<Rightarrow> nat \<Rightarrow> coord list" where
  "leaderRound k ls fs i = foldl (leaderPush k ls i) fs [0 ..< length ls]"

definition computeForces :: "settings \<Rightarrow> real \<Rightarrow> label list \<Rightarrow> coord list" where
  "computeForces s k ls =
     (let fs1 = vertexForces s k ls;
          fs2 = foldl (labelRound s k ls) fs1 [0 ..< length ls]
      in foldl (leaderRound k ls) fs2 [0 ..< length ls])"

text \<open>
  Integration. \<open>phys\<close> carries what the last \<^verbatim>\<open>forEach\<close> updates besides the labels: the
  two arrays and \<^verbatim>\<open>totalEnergy\<close>. A manually positioned label returns at once. An entry
  that is missing in an array is created first, as the source does.
\<close>

record phys =
  vel :: "nat \<rightharpoonup> coord"
  prevPos :: "nat \<rightharpoonup> coord"
  totalEnergy :: real

definition clampLat :: "mapView \<Rightarrow> real \<Rightarrow> label \<Rightarrow> real \<Rightarrow> real" where
  "clampLat v k l newLat =
     (let paddingHeight = pixelsToDegrees k (height l / 2 + 10)
      in max (south v + paddingHeight) (min (north v - paddingHeight) newLat))"

definition clampLng :: "mapView \<Rightarrow> real \<Rightarrow> label \<Rightarrow> real \<Rightarrow> real" where
  "clampLng v k l newLng =
     (let padding = pixelsToDegrees k (width l / 2 + 10)
      in max (west v + padding) (min (east v - padding) newLng))"

definition integrateLabel ::
  "settings \<Rightarrow> mapView \<Rightarrow> real \<Rightarrow> coord \<Rightarrow> nat \<Rightarrow> label \<Rightarrow> phys \<Rightarrow> label \<times> phys" where
  "integrateLabel s v k force i l ph =
     (if manuallyPositioned l then (l, ph)
      else
        let vs0 = (if vel ph i = None then (vel ph)(i \<mapsto> zeroForce) else vel ph);
            ps0 = (if prevPos ph i = None
                   then (prevPos ph)(i \<mapsto> \<lparr>lat = lat (labelLatLng l), lon = lon (labelLatLng l)\<rparr>)
                   else prevPos ph);
            currentLat = lat (labelLatLng l);
            currentLng = lon (labelLatLng l);
            prevLat = lat (the (ps0 i));
            prevLng = lon (the (ps0 i));
            velLat = (currentLat - prevLat) * damping s;
            velLng = (currentLng - prevLng) * damping s;
            vs1 = vs0(i \<mapsto> \<lparr>lat = velLat, lon = velLng\<rparr>);
            forceScale = 0.15;
            newLat = currentLat + velLat + lat force * forceScale;
            newLng = currentLng + velLng + lon force * forceScale;
            ps1 = ps0(i \<mapsto> \<lparr>lat = currentLat, lon = currentLng\<rparr>);
            maxDist = pixelsToDegrees k (maxLabelDistance s);
            vertexDx = newLng - lon (vertexLatLng l);
            vertexDy = newLat - lat (vertexLatLng l);
            vertexDist = sqrt (vertexDx * vertexDx + vertexDy * vertexDy);
            (newLat, newLng, ps2) =
               (if vertexDist > maxDist then
                  let scale = maxDist / vertexDist;
                      newLng' = lon (vertexLatLng l) + vertexDx * scale;
                      newLat' = lat (vertexLatLng l) + vertexDy * scale
                  in (newLat', newLng',
                      ps1(i \<mapsto> \<lparr>lat = newLat' - velLat * 0.3, lon = newLng' - velLng * 0.3\<rparr>))
                else (newLat, newLng, ps1));
            clampedLat = clampLat v k l newLat;
            clampedLng = clampLng v k l newLng;
            ps3 = (if clampedLat \<noteq> newLat \<or> clampedLng \<noteq> newLng
                   then ps2(i \<mapsto> \<lparr>lat = clampedLat - velLat * 0.1, lon = clampedLng - velLng * 0.1\<rparr>)
                   else ps2)
        in (l\<lparr>labelLatLng := \<lparr>lat = clampedLat, lon = clampedLng\<rparr>\<rparr>,
            \<lparr>vel = vs1, prevPos = ps3,
             totalEnergy = totalEnergy ph + (velLat * velLat + velLng * velLng)\<rparr>))"

text \<open>\<^verbatim>\<open>this.labels.forEach((label, i) => ...)\<close>, from index \<open>i\<close> on.\<close>

fun integrateAll ::
  "settings \<Rightarrow> mapView \<Rightarrow> real \<Rightarrow> coord list \<Rightarrow> nat \<Rightarrow> label list \<Rightarrow> phys \<Rightarrow> label list \<times> phys" where
  "integrateAll s v k fs i [] ph = ([], ph)"
| "integrateAll s v k fs i (l # ls) ph =
     (case integrateLabel s v k (fs ! i) i l ph of
        (l', ph') \<Rightarrow>
          (case integrateAll s v k fs (Suc i) ls ph' of
             (ls', ph'') \<Rightarrow> (l' # ls', ph'')))"

text \<open>The step returns the new state and the kinetic energy.\<close>

definition simulateStep :: "settings \<Rightarrow> mapView \<Rightarrow> manager \<Rightarrow> manager \<times> real" where
  "simulateStep s v m =
     (let k = stepScale v;
          forces = computeForces s k (labels m)
      in case integrateAll s v k forces 0 (labels m)
                \<lparr>vel = velocities m, prevPos = previousPositions m, totalEnergy = 0\<rparr> of
           (ls', ph) \<Rightarrow>
             (m\<lparr>labels := ls', velocities := vel ph, previousPositions := prevPos ph\<rparr>,
              totalEnergy ph))"

subsection \<open>The scheduler\<close>

text \<open>
  \<^verbatim>\<open>startSimulation(polygonsForNames)\<close>: nothing when a run is marked as going on; otherwise
  the arrays are rebuilt with one entry per label and the closure \<^verbatim>\<open>animate\<close> is handed to
  \<^verbatim>\<open>requestAnimationFrame\<close>.
\<close>

definition startSimulation :: "polygon list option \<Rightarrow> manager \<Rightarrow> manager" where
  "startSimulation pfn m =
     (if isSimulating m then m
      else m\<lparr>isSimulating := True,
             velocities := (\<lambda>i. if i < length (labels m) then Some zeroForce else None),
             previousPositions :=
               (\<lambda>i. if i < length (labels m)
                    then Some \<lparr>lat = lat (labelLatLng (labels m ! i)),
                               lon = lon (labelLatLng (labels m ! i))\<rparr>
                    else None),
             frames := frames m @
               [\<lparr>iterationCount = 0, previousEnergy = None, stableCount = 0,
                 polygonsForNames = pfn\<rparr>]\<rparr>)"

text \<open>
  \<^verbatim>\<open>stopSimulation()\<close>: clears the interval timer, which no function of the class ever
  sets, and lowers the flag. It does not touch the queue of animation frames.
\<close>

definition stopSimulation :: "manager \<Rightarrow> manager" where
  "stopSimulation m =
     (let m1 = (if simulationInterval m \<noteq> None then m\<lparr>simulationInterval := None\<rparr> else m)
      in m1\<lparr>isSimulating := False\<rparr>)"

text \<open>
  The inner \<^verbatim>\<open>for\<close> of \<^verbatim>\<open>animate\<close>, with \<open>n\<close> rounds left: it stops early when the
  iteration budget is used up. The triple is the manager, \<^verbatim>\<open>iterationCount\<close> and the
  energy summed so far.
\<close>

fun stepsLoop :: "nat \<Rightarrow> settings \<Rightarrow> mapView \<Rightarrow> manager \<times> nat \<times> real \<Rightarrow> manager \<times> nat \<times> real" where
  "stepsLoop 0 s v st = st"
| "stepsLoop (Suc n) s v (m, cnt, esum) =
     (if real cnt < iterations s then
        (case simulateStep s v m of
           (m', energy) \<Rightarrow>
             stepsLoop n s v (m'\<lparr>stepCalls := Suc (stepCalls m')\<rparr>, Suc cnt, esum + energy))
      else (m, cnt, esum))"

definition stepsPerFrame :: nat where
  "stepsPerFrame = 3"

definition stableThreshold :: nat where
  "stableThreshold = 10"

text \<open>The test of \<^verbatim>\<open>animate\<close> that decides between another batch and the end of the run.\<close>

definition continues :: "settings \<Rightarrow> run \<Rightarrow> bool" where
  "continues s r \<longleftrightarrow> real (iterationCount r) < iterations s \<and> stableCount r < stableThreshold"

text \<open>The convergence test on the batch average; nothing is within reach of \<^verbatim>\<open>Infinity\<close>.\<close>

definition isStable :: "real \<Rightarrow> real option \<Rightarrow> bool" where
  "isStable avgEnergy prev \<longleftrightarrow>
     avgEnergy < 0.0001 \<or>
     (case prev of None \<Rightarrow> False | Some previous \<Rightarrow> \<bar>avgEnergy - previous\<bar> < 0.00001)"

text \<open>
  One call of \<^verbatim>\<open>animate\<close> with closure \<open>r\<close>. The first branch runs a batch and registers
  the closure again; the second ends the run and calls the two completion callbacks.
\<close>

definition animate :: "settings \<Rightarrow> mapView \<Rightarrow> run \<Rightarrow> manager \<Rightarrow> manager" where
  "animate s v r m =
     (if continues s r then
        (case stepsLoop stepsPerFrame s v (m, iterationCount r, 0) of
           (m', cnt, esum) \<Rightarrow>
             let avgEnergy = esum / real stepsPerFrame;
                 stable = (if isStable avgEnergy (previousEnergy r)
                           then Suc (stableCount r) else 0);
                 r' = r\<lparr>iterationCount := cnt, previousEnergy := Some avgEnergy,
                        stableCount := stable\<rparr>
             in m'\<lparr>frames := frames m' @ [r']\<rparr>)
      else
        let m1 = m\<lparr>isSimulating := False\<rparr>;
            m2 = (if polygonsForNames r \<noteq> None
                  then m1\<lparr>nameRefreshes := Suc (nameRefreshes m1)\<rparr> else m1)
        in if showDebugFields m2 then m2\<lparr>debugRefreshes := Suc (debugRefreshes m2)\<rparr> else m2)"

text \<open>The browser delivers the next animation frame: the oldest registered callback runs.\<close>

definition fireFrame :: "settings \<Rightarrow> mapView \<Rightarrow> manager \<Rightarrow> manager" where
  "fireFrame s v m =
     (case frames m of
        [] \<Rightarrow> m
      | r # rest \<Rightarrow> animate s v r (m\<lparr>frames := rest\<rparr>))"

subsection \<open>The entry points\<close>

text \<open>\<^verbatim>\<open>removeLabels(polygonId)\<close>.\<close>

definition removeLabels :: "nat \<Rightarrow> manager \<Rightarrow> manager" where
  "removeLabels polyId m =
     (let m1 = m\<lparr>labels := filter (\<lambda>l. polygonId l \<noteq> polyId) (labels m)\<rparr>
      in if labels m1 = [] then stopSimulation m1 else m1)"

text \<open>
  \<^verbatim>\<open>setLabels(polygonId, vertices)\<close>. \<open>setLabelsLabel\<close> is the object it pushes for an
  accepted vertex, without \<^verbatim>\<open>manuallyPositioned\<close>; the eviction looks for the old label
  among those of the same polygon.
\<close>

definition visibleVertices :: "mapView \<Rightarrow> coord list \<Rightarrow> coord list" where
  "visibleVertices v vs = filter (\<lambda>c. boundsContains v (lat c) (lon c)) vs"

definition setLabelsLabel ::
  "settings \<Rightarrow> mapView \<Rightarrow> (real \<Rightarrow> string) \<Rightarrow> nat \<Rightarrow> coord list \<Rightarrow> coord \<Rightarrow> coord \<Rightarrow> nat \<Rightarrow> label" where
  "setLabelsLabel s v fmt polyId vertices centre vertex index =
     \<lparr>key = labelKey polyId index, polygonId = polyId, vertexIndex = index,
      vertexLatLng = \<lparr>lat = lat vertex, lon = lon vertex\<rparr>,
      labelLatLng = initialPosition s v centre vertex index,
      labelText = vertexText fmt vertex,
      width = estimateLabelWidth (vertexText fmt vertex), height = 30,
      polygonVertices = vertices, manuallyPositioned = False\<rparr>"

definition setLabelsVertex ::
  "settings \<Rightarrow> mapView \<Rightarrow> (real \<Rightarrow> string) \<Rightarrow> nat \<Rightarrow> coord list \<Rightarrow> coord \<Rightarrow>
   labeled list \<times> label list \<Rightarrow> coord \<times> nat \<Rightarrow> labeled list \<times> label list" where
  "setLabelsVertex s v fmt polyId vertices centre st vi =
     (case vi of (vertex, index) \<Rightarrow>
        placeVertex s (pixelsToDegrees (viewScale v) (minVertexDistance s))
          (\<lambda>closeLabeled l. polygonId l = polyId \<and> anchorNear closeLabeled l)
          (setLabelsLabel s v fmt polyId vertices centre vertex index)
          vertex (calculateVertexAngle vertices index)
          (boundsContains v (lat vertex) (lon vertex)) st)"

definition setLabels ::
  "settings \<Rightarrow> mapView \<Rightarrow> (real \<Rightarrow> string) \<Rightarrow> nat \<Rightarrow> coord list \<Rightarrow> manager \<Rightarrow> manager" where
  "setLabels s v fmt polyId vertices m0 =
     (let m = removeLabels polyId m0 in
      if vertices = [] then m
      else if visibleVertices v vertices = [] then m
      else
        let centre = centroid (visibleVertices v vertices);
            st = foldl (setLabelsVertex s v fmt polyId vertices centre) ([], labels m)
                   (zip vertices [0 ..< length vertices])
        in startSimulation None (m\<lparr>labels := snd st\<rparr>))"

text \<open>
  \<^verbatim>\<open>updateAllLabels(polygons)\<close>. First the positions of the labels whose key is in the set
  \<^verbatim>\<open>manuallyPositioned\<close> are saved in a \<^verbatim>\<open>Map\<close>; then the labels are rebuilt, polygon after
  polygon, against one list \<^verbatim>\<open>labeledVertices\<close>. \<open>updateLabel\<close> is the object pushed for an
  accepted vertex: at the saved position, and marked, when its key has one.
\<close>

definition savedPositionsOf :: "string set \<Rightarrow> label list \<Rightarrow> (string \<rightharpoonup> coord)" where
  "savedPositionsOf manual ls =
     foldl (\<lambda>saved l. if key l \<in> manual
                       then saved(key l \<mapsto> \<lparr>lat = lat (labelLatLng l), lon = lon (labelLatLng l)\<rparr>)
                       else saved)
       Map.empty ls"

definition updateLabel ::
  "settings \<Rightarrow> mapView \<Rightarrow> (real \<Rightarrow> string) \<Rightarrow> (string \<rightharpoonup> coord) \<Rightarrow> polygon \<Rightarrow> coord \<Rightarrow> coord \<Rightarrow> nat \<Rightarrow> label" where
  "updateLabel s v fmt saved p centre vertex index =
     (let savedPos = saved (labelKey (pid p) index) in
      \<lparr>key = labelKey (pid p) index, polygonId = pid p, vertexIndex = index,
       vertexLatLng = \<lparr>lat = lat vertex, lon = lon vertex\<rparr>,
       labelLatLng =
         (case savedPos of
            Some pos \<Rightarrow> \<lparr>lat = lat pos, lon = lon pos\<rparr>
          | None \<Rightarrow> initialPosition s v centre vertex index),
       labelText = vertexText fmt vertex,
       width = estimateLabelWidth (vertexText fmt vertex), height = 30,
       polygonVertices = phull p, manuallyPositioned = (savedPos \<noteq> None)\<rparr>)"

definition updateVertex ::
  "settings \<Rightarrow> mapView \<Rightarrow> (real \<Rightarrow> string) \<Rightarrow> (string \<rightharpoonup> coord) \<Rightarrow> polygon \<Rightarrow> coord \<Rightarrow>
   labeled list \<times> label list \<Rightarrow> coord \<times> nat \<Rightarrow> labeled list \<times> label list" where
  "updateVertex s v fmt saved p centre st vi =
     (case vi of (vertex, index) \<Rightarrow>
        placeVertex s (pixelsToDegrees (viewScale v) (minVertexDistance s))
          (\<lambda>closeLabeled l. anchorNear closeLabeled l)
          (updateLabel s v fmt saved p centre vertex index)
          vertex (calculateVertexAngle (phull p) index)
          (boundsContains v (lat vertex) (lon vertex)) st)"

definition updatePolygon ::
  "settings \<Rightarrow> mapView \<Rightarrow> (real \<Rightarrow> string) \<Rightarrow> (string \<rightharpoonup> coord) \<Rightarrow>
   labeled list \<times> label list \<Rightarrow> polygon \<Rightarrow> labeled list \<times> label list" where
  "updatePolygon s v fmt saved st p =
     (if phull p = [] then st
      else if visibleVertices v (phull p) = [] then st
      else
        foldl (updateVertex s v fmt saved p (centroid (visibleVertices v (phull p)))) st
          (zip (phull p) [0 ..< length (phull p)]))"

definition updateAllLabels ::
  "settings \<Rightarrow> mapView \<Rightarrow> (real \<Rightarrow> string) \<Rightarrow> polygon list \<Rightarrow> manager \<Rightarrow> manager" where
  "updateAllLabels s v fmt polygons m =
     (let saved = savedPositionsOf (manuallyPositionedKeys m) (labels m);
          st = foldl (updatePolygon s v fmt saved) ([], []) polygons;
          m1 = m\<lparr>labels := snd st\<rparr>
      in if labels m1 \<noteq> [] then startSimulation (Some polygons) m1
         else m1\<lparr>nameRefreshes := Suc (nameRefreshes m1)\<rparr>)"

text \<open>
  The map manager (\<^verbatim>\<open>src/unnamed/part_002\<close>) keeps the polygons it passes to
  \<^verbatim>\<open>updateAllLabels\<close> in \<^verbatim>\<open>polygonData\<close>; \<^verbatim>\<open>addPolygon\<close> stores a polygon there only when its
  hull has three points or more. The association list is the \<^verbatim>\<open>Map\<close>, \<^verbatim>\<open>removePolygon\<close>
  deletes the entry first.
\<close>

definition addPolygonData :: "nat \<Rightarrow> coord list \<Rightarrow> string \<Rightarrow> (nat \<times> polygon) list \<Rightarrow> (nat \<times> polygon) list" where
  "addPolygonData polyId h nm pd =
     (let pd1 = filter (\<lambda>e. fst e \<noteq> polyId) pd
      in if length h < 3 then pd1
         else pd1 @ [(polyId, \<lparr>pid = polyId, phull = h, pname = nm\<rparr>)])"

text \<open>
  Any number of calls of \<^verbatim>\<open>simulateStep\<close>, each under the settings and the view of its
  moment.
\<close>

definition simulateSteps :: "(settings \<times> mapView) list \<Rightarrow> manager \<Rightarrow> manager" where
  "simulateSteps cfgs m = foldl (\<lambda>m' sv. fst (simulateStep (fst sv) (snd sv) m')) m cfgs"

subsection \<open>Predicates and scenes of the statements\<close>

text \<open>
  A label agrees with the saved positions: when its key has a saved position, the label
  stands there and is marked as manually positioned.
\<close>

definition restored :: "(string \<rightharpoonup> coord) \<Rightarrow> label \<Rightarrow> bool" where
  "restored saved l \<longleftrightarrow>
     (case saved (key l) of None \<Rightarrow> True | Some c \<Rightarrow> labelLatLng l = c \<and> manuallyPositioned l)"

text \<open>
  A small scene: a view of two degrees around the origin at zoom 0, a right triangle with
  one corner in view, the label of that corner after the user dragged it, and a stand-in
  for \<^verbatim>\<open>toFixed(6)\<close>.
\<close>

definition demoView :: mapView where
  "demoView = \<lparr>south = - 1, north = 1, west = - 1, east = 1, zoom = 0\<rparr>"

definition demoTriangle :: polygon where
  "demoTriangle = \<lparr>pid = 1, phull = [\<lparr>lat = 0, lon = 0\<rparr>, \<lparr>lat = 0, lon = 5\<rparr>, \<lparr>lat = 5, lon = 0\<rparr>],
                    pname = ''field''\<rparr>"

definition demoLabel :: label where
  "demoLabel = \<lparr>key = labelKey 1 0, polygonId = 1, vertexIndex = 0,
                 vertexLatLng = \<lparr>lat = 0, lon = 0\<rparr>, labelLatLng = \<lparr>lat = 3 / 10, lon = 4 / 10\<rparr>,
                 labelText = ''0.000000, 0.000000'', width = 149, height = 30,
                 polygonVertices = phull demoTriangle, manuallyPositioned = True\<rparr>"

definition demoManager :: manager where
  "demoManager = \<lparr>labels = [demoLabel], manuallyPositionedKeys = {labelKey 1 0},
                   isSimulating = False, simulationInterval = None,
                   velocities = Map.empty, previousPositions = Map.empty,
                   showDebugFields = False, frames = [], stepCalls = 0,
                   nameRefreshes = 0, debugRefreshes = 0\<rparr>"

definition demoFmt :: "real \<Rightarrow> string" where
  "demoFmt x = ''0.000000''"

text \<open>
  The distance of two points, the clamp of \<^verbatim>\<open>simulateStep\<close> to the padded view as one function
  of the point, and the test that a point lies strictly inside the padded view of a label.
\<close>

definition separation :: "coord \<Rightarrow> coord \<Rightarrow> real" where
  "separation p q = sqrt ((lon p - lon q) * (lon p - lon q) + (lat p - lat q) * (lat p - lat q))"

definition viewportClamp :: "mapView \<Rightarrow> real \<Rightarrow> label \<Rightarrow> coord \<Rightarrow> coord" where
  "viewportClamp v k l q = \<lparr>lat = clampLat v k l (lat q), lon = clampLng v k l (lon q)\<rparr>"

definition strictlyInsidePadded :: "mapView \<Rightarrow> real \<Rightarrow> label \<Rightarrow> coord \<Rightarrow> bool" where
  "strictlyInsidePadded v k l p \<longleftrightarrow>
     south v + pixelsToDegrees k (height l / 2 + 10) < lat p \<and>
     lat p < north v - pixelsToDegrees k (height l / 2 + 10) \<and>
     west v + pixelsToDegrees k (width l / 2 + 10) < lon p \<and>
     lon p < east v - pixelsToDegrees k (width l / 2 + 10)"

text \<open>
  A view of one degree at zoom 10 (about 730 pixels wide), a small triangle in its middle
  and the label of its first corner, standing at the centre of the triangle.
\<close>

definition edgeView :: mapView where
  "edgeView = \<lparr>south = 0, north = 1, west = 0, east = 1, zoom = 10\<rparr>"

definition smallTriangle :: "coord list" where
  "smallTriangle = [\<lparr>lat = 50 / 100, lon = 50 / 100\<rparr>, \<lparr>lat = 53 / 100, lon = 56 / 100\<rparr>,
                    \<lparr>lat = 56 / 100, lon = 50 / 100\<rparr>]"

definition restLabel :: label where
  "restLabel = \<lparr>key = labelKey 1 0, polygonId = 1, vertexIndex = 0,
                 vertexLatLng = \<lparr>lat = 50 / 100, lon = 50 / 100\<rparr>,
                 labelLatLng = \<lparr>lat = 53 / 100, lon = 52 / 100\<rparr>,
                 labelText = ''0.500000, 0.500000'', width = 142, height = 30,
                 polygonVertices = smallTriangle, manuallyPositioned = False\<rparr>"

definition restManager :: manager where
  "restManager = \<lparr>labels = [restLabel], manuallyPositionedKeys = {},
                   isSimulating = False, simulationInterval = None,
                   velocities = Map.empty, previousPositions = Map.empty,
                   showDebugFields = False, frames = [], stepCalls = 0,
                   nameRefreshes = 0, debugRefreshes = 0\<rparr>"

text \<open>
  A second view at zoom 10 and the label of a vertex that lies 0.005 degrees (under four
  pixels) inside its western edge.
\<close>

definition seaView :: mapView where
  "seaView = \<lparr>south = - 13, north = - 12, west = - 124, east = - 123, zoom = 10\<rparr>"

definition edgeLabel :: label where
  "edgeLabel = \<lparr>key = labelKey 2 0, polygonId = 2, vertexIndex = 0,
                 vertexLatLng = \<lparr>lat = - (125 / 10), lon = - (123995 / 1000)\<rparr>,
                 labelLatLng = \<lparr>lat = - (1245 / 100), lon = - (12397 / 100)\<rparr>,
                 labelText = ''-12.500000, -123.995000'', width = 177, height = 30,
                 polygonVertices = [\<lparr>lat = - (125 / 10), lon = - (123995 / 1000)\<rparr>,
                                    \<lparr>lat = - (124 / 10), lon = - (1237 / 10)\<rparr>,
                                    \<lparr>lat = - (126 / 10), lon = - (1237 / 10)\<rparr>],
                 manuallyPositioned = False\<rparr>"

definition edgeManager :: manager where
  "edgeManager = \<lparr>labels = [edgeLabel], manuallyPositionedKeys = {},
                   isSimulating = False, simulationInterval = None,
                   velocities = Map.empty, previousPositions = Map.empty,
                   showDebugFields = False, frames = [], stepCalls = 0,
                   nameRefreshes = 0, debugRefreshes = 0\<rparr>"

text \<open>
  The settings with \<^verbatim>\<open>maxLabelDistance\<close> at -80 pixels, and the small scene with its label
  in motion: the previous position is such that the Verlet step lands 0.05 degrees from the
  anchor.
\<close>

definition backSettings :: settings where
  "backSettings = defaultSettings\<lparr>maxLabelDistance := - 80\<rparr>"

definition driftManager :: manager where
  "driftManager = restManager\<lparr>previousPositions := [0 \<mapsto> \<lparr>lat = 6151 / 12000, lon = 3017 / 6000\<rparr>]\<rparr>"

text \<open>
  The vertex \<open>i\<close> of a ring is straight: one of its two edges has length zero, or the
  two edges point in opposite directions (the vertex lies between its neighbours, on
  one line with them).
\<close>

definition straightAt :: "coord list \<Rightarrow> nat \<Rightarrow> bool" where
  "straightAt ring i \<longleftrightarrow>
     (let n = length ring;
          prev = ring ! ((i + n - 1) mod n);
          curr = ring ! i;
          next = ring ! ((i + 1) mod n)
      in (lon prev = lon curr \<and> lat prev = lat curr) \<or>
         (lon next = lon curr \<and> lat next = lat curr) \<or>
         (\<exists>c > 0. lon prev - lon curr = - c * (lon next - lon curr) \<and>
                  lat prev - lat curr = - c * (lat next - lat curr)))"

text \<open>
  The vertex \<open>i\<close> of a ring has an edge of length zero: it has the coordinates of its
  predecessor or of its successor. This is the case that \<^verbatim>\<open>calculateVertexAngle\<close> answers
  by its own branch \<^verbatim>\<open>mag1 === 0 || mag2 === 0\<close>, with no quotient and no \<^verbatim>\<open>Math.acos\<close>.
\<close>

definition zeroEdgeAt :: "coord list \<Rightarrow> nat \<Rightarrow> bool" where
  "zeroEdgeAt ring i \<longleftrightarrow>
     (let n = length ring;
          prev = ring ! ((i + n - 1) mod n);
          curr = ring ! i;
          next = ring ! ((i + 1) mod n)
      in (lon prev = lon curr \<and> lat prev = lat curr) \<or>
         (lon next = lon curr \<and> lat next = lat curr))"

text \<open>
  A label passes the angle filter: the angle at its vertex, in the ring it stores, is at
  most 180 degrees less \<^verbatim>\<open>minVertexAngle\<close>.
\<close>

definition sharpEnough :: "settings \<Rightarrow> label \<Rightarrow> bool" where
  "sharpEnough s l \<longleftrightarrow>
     calculateVertexAngle (polygonVertices l) (vertexIndex l) \<le> 180 - minVertexAngle s"

text \<open>
  A view on the equator at zoom 12 (about 580 pixels wide), a manager without labels, and
  a rectangle with one more vertex in the middle of its lower edge; of its five vertices
  only that one is in view.
\<close>

definition closeView :: mapView where
  "closeView = \<lparr>south = - (1 / 10), north = 1 / 10, west = 4 / 10, east = 6 / 10, zoom = 12\<rparr>"

definition emptyManager :: manager where
  "emptyManager = \<lparr>labels = [], manuallyPositionedKeys = {},
                    isSimulating = False, simulationInterval = None,
                    velocities = Map.empty, previousPositions = Map.empty,
                    showDebugFields = False, frames = [], stepCalls = 0,
                    nameRefreshes = 0, debugRefreshes = 0\<rparr>"

definition straightRing :: "coord list" where
  "straightRing = [\<lparr>lat = 0, lon = 2 / 10\<rparr>, \<lparr>lat = 0, lon = 5 / 10\<rparr>, \<lparr>lat = 0, lon = 8 / 10\<rparr>,
                   \<lparr>lat = 3 / 10, lon = 8 / 10\<rparr>, \<lparr>lat = 3 / 10, lon = 2 / 10\<rparr>]"

definition straightPolygon :: polygon where
  "straightPolygon = \<lparr>pid = 4, phull = straightRing, pname = ''plot''\<rparr>"

text \<open>
  The same rectangle with the vertex in view entered twice in a row: the second copy has an
  edge of length zero.
\<close>

definition doubledRing :: "coord list" where
  "doubledRing = [\<lparr>lat = 0, lon = 2 / 10\<rparr>, \<lparr>lat = 0, lon = 5 / 10\<rparr>, \<lparr>lat = 0, lon = 5 / 10\<rparr>,
                  \<lparr>lat = 3 / 10, lon = 8 / 10\<rparr>, \<lparr>lat = 3 / 10, lon = 2 / 10\<rparr>]"

definition doubledPolygon :: polygon where
  "doubledPolygon = \<lparr>pid = 10, phull = doubledRing, pname = ''plot''\<rparr>"

text \<open>
  Polygons with two points (the second out of view), none and one.
\<close>

definition twoPointPolygon :: polygon where
  "twoPointPolygon = \<lparr>pid = 5, phull = [\<lparr>lat = 0, lon = 1 / 2\<rparr>, \<lparr>lat = 0, lon = 4 / 5\<rparr>],
                        pname = ''track''\<rparr>"

definition emptyPolygon :: polygon where
  "emptyPolygon = \<lparr>pid = 6, phull = [], pname = ''none''\<rparr>"

definition onePointPolygon :: polygon where
  "onePointPolygon = \<lparr>pid = 7, phull = [\<lparr>lat = 0, lon = 1 / 2\<rparr>], pname = ''point''\<rparr>"







text \<open>
  The manager after \<^verbatim>\<open>startSimulation\<close> and \<open>k\<close> animation frames.
\<close>

definition runTicks :: "settings \<Rightarrow> mapView \<Rightarrow> polygon list option \<Rightarrow> manager \<Rightarrow> nat \<Rightarrow> manager" where
  "runTicks s v pfn m k = (fireFrame s v ^^ k) (startSimulation pfn m)"

text \<open>
  The energies of a run, told from the steps alone and not from what the scheduler
  stores. \<open>stepsFrom s v n w\<close> is the state after \<open>n\<close> calls of \<^verbatim>\<open>simulateStep\<close> from \<open>w\<close>, and
  \<open>stepEnergy s v w j\<close> the kinetic energy that call number \<open>j\<close> (from 0) returns.
\<close>

definition stepsFrom :: "settings \<Rightarrow> mapView \<Rightarrow> nat \<Rightarrow> manager \<Rightarrow> manager" where
  "stepsFrom s v n w = ((\<lambda>x. fst (simulateStep s v x)) ^^ n) w"







text \<open>
  Two managers agree on what \<^verbatim>\<open>simulateStep\<close> reads and writes. \<open>ticksLeft\<close> bounds the
  number of callbacks that a closure still takes, the one that ends the run included.
\<close>

definition samePhysics :: "manager \<Rightarrow> manager \<Rightarrow> bool" where
  "samePhysics a b \<longleftrightarrow>
     labels a = labels b \<and> velocities a = velocities b \<and>
     previousPositions a = previousPositions b"


subsection \<open>Coincident labels\<close>

text \<open>
  What the collision force of two labels amounts to when their centres coincide: the
  overlap on either axis is the full sum of the half sizes and the buffers (the
  distance subtracted is 0), the sign is the positive one of the \<^verbatim>\<open>else\<close> branches, and the
  addend is the fixed push of 10 pixels of the branch for centres on top of each other.
  No quotient occurs in it.
\<close>

definition coincidentNudge :: "settings \<Rightarrow> real \<Rightarrow> label \<Rightarrow> label \<Rightarrow> real \<times> real" where
  "coincidentNudge s k label1 label2 =
     (let w1 = pixelsToDegrees k (width label1) / 2;
          h1 = pixelsToDegrees k (height label1) / 2;
          w2 = pixelsToDegrees k (width label2) / 2;
          h2 = pixelsToDegrees k (height label2) / 2;
          buffer = pixelsToDegrees k 5;
          forceMultiplier = eqLabel s / 30
      in ((w1 + w2 + buffer * 2) * 0.5 * forceMultiplier + pixelsToDegrees k 10,
          (h1 + h2 + buffer * 2) * 0.5 * forceMultiplier + pixelsToDegrees k 10))"

text \<open>
  Two labels that the forces of \<^verbatim>\<open>simulateStep\<close> cannot tell apart but for their order:
  same position, anchor, size and ring, and the same parity of the vertex index.
\<close>

definition twins :: "label \<Rightarrow> label \<Rightarrow> bool" where
  "twins a b \<longleftrightarrow>
     labelLatLng b = labelLatLng a \<and> vertexLatLng b = vertexLatLng a \<and>
     width b = width a \<and> height b = height a \<and>
     polygonVertices b = polygonVertices a \<and>
     vertexIndex b mod 2 = vertexIndex a mod 2"



text \<open>
  The forces on one label that depend on this label alone (spring and push from the
  centre of its ring), and the push of label \<open>l\<close> away from the leader line of another
  label, both as the force they add.
\<close>

definition ownShift :: "settings \<Rightarrow> real \<Rightarrow> label \<Rightarrow> coord" where
  "ownShift s k l = centerRepulsion s k l (springForce s l zeroForce)"

definition leaderShift :: "real \<Rightarrow> label \<Rightarrow> label \<Rightarrow> coord" where
  "leaderShift k l otherLabel =
     (if lineIntersectsBox
           (lat (vertexLatLng otherLabel)) (lon (vertexLatLng otherLabel))
           (lat (labelLatLng otherLabel)) (lon (labelLatLng otherLabel))
           (labelBox k 2 l)
      then
        let lineMidLat = (lat (vertexLatLng otherLabel) + lat (labelLatLng otherLabel)) / 2;
            lineMidLng = (lon (vertexLatLng otherLabel) + lon (labelLatLng otherLabel)) / 2;
            pushDx = lon (labelLatLng l) - lineMidLng;
            pushDy = lat (labelLatLng l) - lineMidLat;
            pushDist = sqrt (pushDx * pushDx + pushDy * pushDy)
        in if pushDist > 0.00001
           then \<lparr>lat = (pushDy / pushDist) * pixelsToDegrees k 3,
                 lon = (pushDx / pushDist) * pixelsToDegrees k 3\<rparr>
           else zeroForce
      else zeroForce)"






section \<open>Theorems\<close>

subsection \<open>Segment against box\<close>

text \<open>
  Claim C8. \<open>lineIntersectsBox\<close> answers true for the segment (0,0)-(10,10) against the
  box with edges 2 and 8, false for the segment (0,0)-(1,1) against the box with edges 5
  and 6, and true for every segment one of whose endpoints lies strictly inside the box,
  wherever the other endpoint is.
\<close>

theorem lineIntersectsBox_cases:
  "lineIntersectsBox 0 0 10 10 \<lparr>bLeft = 2, bRight = 8, bBottom = 2, bTop = 8\<rparr> \<and>
   \<not> lineIntersectsBox 0 0 1 1 \<lparr>bLeft = 5, bRight = 6, bBottom = 5, bTop = 6\<rparr> \<and>
   (\<forall>y1 x1 y2 x2 b.
      (bLeft b < x1 \<and> x1 < bRight b \<and> bBottom b < y1 \<and> y1 < bTop b) \<or>
      (bLeft b < x2 \<and> x2 < bRight b \<and> bBottom b < y2 \<and> y2 < bTop b)
      \<longrightarrow> lineIntersectsBox y1 x1 y2 x2 b)"
proof (intro conjI allI impI)
  show "lineIntersectsBox 0 0 10 10 \<lparr>bLeft = 2, bRight = 8, bBottom = 2, bTop = 8\<rparr>"
    by (simp add: lineIntersectsBox_def insideBox_def clipNear_def clipFar_def)
next
  show "\<not> lineIntersectsBox 0 0 1 1 \<lparr>bLeft = 5, bRight = 6, bBottom = 5, bTop = 6\<rparr>"
    by (simp add: lineIntersectsBox_def)
next
  fix y1 x1 y2 x2 :: real and b :: box
  assume "(bLeft b < x1 \<and> x1 < bRight b \<and> bBottom b < y1 \<and> y1 < bTop b) \<or>
          (bLeft b < x2 \<and> x2 < bRight b \<and> bBottom b < y2 \<and> y2 < bTop b)"
  then show "lineIntersectsBox y1 x1 y2 x2 b"
    unfolding lineIntersectsBox_def insideBox_def Let_def by auto
qed

theorem lineIntersectsBox_cases_witness:
  "lineIntersectsBox 3 3 100 (- 50) \<lparr>bLeft = 2, bRight = 8, bBottom = 2, bTop = 8\<rparr>"
proof -
  have "(bLeft \<lparr>bLeft = 2, bRight = 8, bBottom = 2, bTop = 8\<rparr> < (3::real) \<and>
         (3::real) < bRight \<lparr>bLeft = 2, bRight = 8, bBottom = 2, bTop = 8\<rparr> \<and>
         bBottom \<lparr>bLeft = 2, bRight = 8, bBottom = 2, bTop = 8\<rparr> < (3::real) \<and>
         (3::real) < bTop \<lparr>bLeft = 2, bRight = 8, bBottom = 2, bTop = 8\<rparr>)"
    by simp
  with lineIntersectsBox_cases show ?thesis by blast
qed

subsection \<open>The step moves positions only, and never those of dragged labels\<close>

lemma integrateLabel_manual:
  "manuallyPositioned l \<Longrightarrow> integrateLabel s v k f i l ph = (l, ph)"
  by (simp add: integrateLabel_def)

lemma integrateLabel_frame:
  "\<exists>c. fst (integrateLabel s v k f i l ph) = l\<lparr>labelLatLng := c\<rparr>"
proof (cases "manuallyPositioned l")
  case True
  then have "fst (integrateLabel s v k f i l ph) = l\<lparr>labelLatLng := labelLatLng l\<rparr>"
    by (simp add: integrateLabel_manual)
  then show ?thesis by blast
next
  case False
  then show ?thesis
    by (auto simp: integrateLabel_def Let_def split: prod.splits)
qed

lemma integrateAll_length:
  "length (fst (integrateAll s v k fs i ls ph)) = length ls"
proof (induction ls arbitrary: i ph)
  case Nil
  then show ?case by simp
next
  case (Cons l ls)
  obtain l' ph' where il: "integrateLabel s v k (fs ! i) i l ph = (l', ph')"
    by (cases "integrateLabel s v k (fs ! i) i l ph")
  obtain ls' ph'' where ia: "integrateAll s v k fs (Suc i) ls ph' = (ls', ph'')"
    by (cases "integrateAll s v k fs (Suc i) ls ph'")
  from Cons.IH [of "Suc i" ph'] ia have "length ls' = length ls" by simp
  with il ia show ?case by simp
qed

lemma integrateAll_manual_nth:
  "j < length ls \<Longrightarrow> manuallyPositioned (ls ! j) \<Longrightarrow>
   fst (integrateAll s v k fs i ls ph) ! j = ls ! j"
proof (induction ls arbitrary: i ph j)
  case Nil
  then show ?case by simp
next
  case (Cons l ls)
  obtain l' ph' where il: "integrateLabel s v k (fs ! i) i l ph = (l', ph')"
    by (cases "integrateLabel s v k (fs ! i) i l ph")
  obtain ls' ph'' where ia: "integrateAll s v k fs (Suc i) ls ph' = (ls', ph'')"
    by (cases "integrateAll s v k fs (Suc i) ls ph'")
  show ?case
  proof (cases j)
    case 0
    with Cons.prems il ia show ?thesis by (simp add: integrateLabel_manual)
  next
    case (Suc j')
    with Cons.prems have "fst (integrateAll s v k fs (Suc i) ls ph') ! j' = ls ! j'"
      by (intro Cons.IH) simp_all
    with Suc il ia show ?thesis by simp
  qed
qed

lemma integrateAll_frame:
  "map (\<lambda>l. l\<lparr>labelLatLng := c\<rparr>) (fst (integrateAll s v k fs i ls ph)) =
   map (\<lambda>l. l\<lparr>labelLatLng := c\<rparr>) ls"
proof (induction ls arbitrary: i ph)
  case Nil
  then show ?case by simp
next
  case (Cons l ls)
  obtain l' ph' where il: "integrateLabel s v k (fs ! i) i l ph = (l', ph')"
    by (cases "integrateLabel s v k (fs ! i) i l ph")
  obtain ls' ph'' where ia: "integrateAll s v k fs (Suc i) ls ph' = (ls', ph'')"
    by (cases "integrateAll s v k fs (Suc i) ls ph'")
  from integrateLabel_frame [of s v k "fs ! i" i l ph] il
  obtain c' where "l' = l\<lparr>labelLatLng := c'\<rparr>" by auto
  moreover from Cons.IH [of "Suc i" ph'] ia
  have "map (\<lambda>l. l\<lparr>labelLatLng := c\<rparr>) ls' = map (\<lambda>l. l\<lparr>labelLatLng := c\<rparr>) ls" by simp
  ultimately show ?case using il ia by simp
qed

lemma simulateStep_labels:
  "labels (fst (simulateStep s v m)) =
   fst (integrateAll s v (stepScale v) (computeForces s (stepScale v) (labels m)) 0 (labels m)
        \<lparr>vel = velocities m, prevPos = previousPositions m, totalEnergy = 0\<rparr>)"
  by (simp add: simulateStep_def Let_def split: prod.splits)

lemma simulateStep_length:
  "length (labels (fst (simulateStep s v m))) = length (labels m)"
  by (simp add: simulateStep_labels integrateAll_length)

lemma simulateStep_manual_nth:
  "i < length (labels m) \<Longrightarrow> manuallyPositioned (labels m ! i) \<Longrightarrow>
   labels (fst (simulateStep s v m)) ! i = labels m ! i"
  by (simp add: simulateStep_labels integrateAll_manual_nth)

lemma simulateSteps_manual_nth:
  "i < length (labels m) \<Longrightarrow> manuallyPositioned (labels m ! i) \<Longrightarrow>
   length (labels (simulateSteps cfgs m)) = length (labels m) \<and>
   labels (simulateSteps cfgs m) ! i = labels m ! i"
proof (induction cfgs arbitrary: m)
  case Nil
  then show ?case by (simp add: simulateSteps_def)
next
  case (Cons sv cfgs)
  let ?m1 = "fst (simulateStep (fst sv) (snd sv) m)"
  have len: "length (labels ?m1) = length (labels m)" by (rule simulateStep_length)
  have same: "labels ?m1 ! i = labels m ! i"
    using Cons.prems by (rule simulateStep_manual_nth)
  have "length (labels (simulateSteps cfgs ?m1)) = length (labels ?m1) \<and>
        labels (simulateSteps cfgs ?m1) ! i = labels ?m1 ! i"
    using Cons.prems len same by (intro Cons.IH) simp_all
  moreover have "simulateSteps (sv # cfgs) m = simulateSteps cfgs ?m1"
    by (simp add: simulateSteps_def)
  ultimately show ?case using len same by simp
qed

subsection \<open>A rebuild restores the saved positions\<close>

lemma set_splice1: "set (splice1 i xs) \<subseteq> set xs"
  unfolding splice1_def using set_take_subset [of i xs] set_drop_subset [of "Suc i" xs] by auto

lemma spliced_subset:
  "set (case findIndex P ls of None \<Rightarrow> ls | Some j \<Rightarrow> splice1 j ls) \<subseteq> set ls"
  using set_splice1 [of _ ls] by (cases "findIndex P ls") auto

lemma placeVertex_labels_subset:
  "set (snd (placeVertex s d same new vertex ang inb st)) \<subseteq> insert new (set (snd st))"
proof (cases st)
  case (Pair lv ls)
  show ?thesis
  proof (cases "find (closeTo d vertex) lv")
    case None
    then show ?thesis
      unfolding Pair placeVertex_def Let_def by auto
  next
    case (Some c)
    have "set (case findIndex (same c) ls of None \<Rightarrow> ls | Some j \<Rightarrow> splice1 j ls) \<subseteq> set ls"
      by (rule spliced_subset)
    with Some show ?thesis
      unfolding Pair placeVertex_def Let_def by auto
  qed
qed

lemma placeVertex_inv:
  assumes "\<forall>l \<in> set (snd st). P l" and "P new"
  shows "\<forall>l \<in> set (snd (placeVertex s d same new vertex ang inb st)). P l"
  using assms placeVertex_labels_subset [of s d same new vertex ang inb st] by auto

lemma foldl_inv:
  assumes "\<forall>l \<in> set (snd st). P l"
    and "\<And>st x. \<forall>l \<in> set (snd st). P l \<Longrightarrow> \<forall>l \<in> set (snd (f st x)). P l"
  shows "\<forall>l \<in> set (snd (foldl f st xs)). P l"
  using assms(1)
proof (induction xs arbitrary: st)
  case Nil
  then show ?case by simp
next
  case (Cons x xs)
  from assms(2) [OF Cons.prems] have "\<forall>l \<in> set (snd (f st x)). P l" .
  from Cons.IH [OF this] show ?case by simp
qed

lemma coord_eta: "\<lparr>lat = lat (c::coord), lon = lon c\<rparr> = c"
  by simp

lemma updateLabel_restored: "restored saved (updateLabel s v fmt saved p centre vertex index)"
  by (cases "saved (labelKey (pid p) index)") (simp_all add: restored_def updateLabel_def)

lemma updateVertex_restored:
  "\<forall>l \<in> set (snd st). restored saved l \<Longrightarrow>
   \<forall>l \<in> set (snd (updateVertex s v fmt saved p centre st vi)). restored saved l"
proof (cases vi)
  case (Pair vertex index)
  assume "\<forall>l \<in> set (snd st). restored saved l"
  then show ?thesis
    unfolding updateVertex_def Pair prod.case
    by (rule placeVertex_inv) (rule updateLabel_restored)
qed

lemma updatePolygon_restored:
  "\<forall>l \<in> set (snd st). restored saved l \<Longrightarrow>
   \<forall>l \<in> set (snd (updatePolygon s v fmt saved st p)). restored saved l"
proof -
  assume a: "\<forall>l \<in> set (snd st). restored saved l"
  have "\<forall>l \<in> set (snd (foldl (updateVertex s v fmt saved p c) st xs)). restored saved l" for c xs
    using a by (rule foldl_inv) (rule updateVertex_restored)
  with a show ?thesis unfolding updatePolygon_def by simp
qed

lemma updateAllLabels_labels:
  "labels (updateAllLabels s v fmt polygons m) =
   snd (foldl (updatePolygon s v fmt (savedPositionsOf (manuallyPositionedKeys m) (labels m)))
          ([], []) polygons)"
  by (simp add: updateAllLabels_def Let_def startSimulation_def)

lemma updateAllLabels_restored:
  "\<forall>l \<in> set (labels (updateAllLabels s v fmt polygons m)).
     restored (savedPositionsOf (manuallyPositionedKeys m) (labels m)) l"
  unfolding updateAllLabels_labels
proof (rule foldl_inv)
  show "\<forall>l \<in> set (snd ([], [])). restored (savedPositionsOf (manuallyPositionedKeys m) (labels m)) l"
    by simp
qed (rule updatePolygon_restored)

lemma savedPositionsOf_snoc:
  "savedPositionsOf manual (ls @ [l]) =
     (if key l \<in> manual then (savedPositionsOf manual ls)(key l \<mapsto> labelLatLng l)
      else savedPositionsOf manual ls)"
  by (simp add: savedPositionsOf_def coord_eta)

lemma savedPositionsOf_distinct:
  "distinct (map key ls) \<Longrightarrow> lo \<in> set ls \<Longrightarrow> key lo \<in> manual \<Longrightarrow>
   savedPositionsOf manual ls (key lo) = Some (labelLatLng lo)"
proof (induction ls rule: rev_induct)
  case Nil
  then show ?case by simp
next
  case (snoc l ls)
  show ?case
  proof (cases "lo = l")
    case True
    with snoc.prems show ?thesis by (simp add: savedPositionsOf_snoc)
  next
    case False
    with snoc.prems have mem: "lo \<in> set ls" and ne: "key l \<noteq> key lo" by auto
    from snoc.prems have "distinct (map key ls)" by simp
    from snoc.IH [OF this mem snoc.prems(3)] ne show ?thesis
      by (simp add: savedPositionsOf_snoc)
  qed
qed

lemma savedPositionsOf_dom:
  "savedPositionsOf manual ls k = Some c \<Longrightarrow> k \<in> manual \<and> (\<exists>l \<in> set ls. key l = k \<and> labelLatLng l = c)"
proof (induction ls arbitrary: c rule: rev_induct)
  case Nil
  then show ?case by (simp add: savedPositionsOf_def)
next
  case (snoc l ls)
  then show ?case by (auto simp: savedPositionsOf_snoc split: if_splits)
qed

lemma upt3: "[0..<3] = [0, 1, 2]"
  by (simp add: upt_rec)

lemma angle0:
  "calculateVertexAngle [\<lparr>lat = 0, lon = 0\<rparr>, \<lparr>lat = 0, lon = 5\<rparr>, \<lparr>lat = 5, lon = 0\<rparr>] 0 = 90"
  by (simp add: calculateVertexAngle_def Let_def)

lemma demo_rebuild:
  "labels (updateAllLabels defaultSettings demoView fmt [demoTriangle] demoManager) =
     [updateLabel defaultSettings demoView fmt
        (savedPositionsOf (manuallyPositionedKeys demoManager) (labels demoManager))
        demoTriangle \<lparr>lat = 0, lon = 0\<rparr> \<lparr>lat = 0, lon = 0\<rparr> 0]"
  unfolding updateAllLabels_labels
  by (simp add: updatePolygon_def visibleVertices_def boundsContains_def demoView_def upt3
      centroid_def updateVertex_def placeVertex_def angle0 defaultSettings_def demoTriangle_def)


text \<open>
  Claim C1. A label whose \<^verbatim>\<open>manuallyPositioned\<close> is true is left as it is by any number of
  calls of \<^verbatim>\<open>simulateStep\<close>, position included. After \<^verbatim>\<open>updateAllLabels\<close>, every label whose
  key has a saved position stands exactly there and is marked; the saved position of a
  key is that of the former label with this key, when the key is in the set of dragged
  labels (keys of the former labels being distinct).
\<close>

theorem manual_position_invariance:
  "(\<forall>cfgs i. i < length (labels m) \<and> manuallyPositioned (labels m ! i) \<longrightarrow>
      length (labels (simulateSteps cfgs m)) = length (labels m) \<and>
      labels (simulateSteps cfgs m) ! i = labels m ! i) \<and>
   (\<forall>ln c. ln \<in> set (labels (updateAllLabels s v fmt polygons m)) \<and>
      savedPositionsOf (manuallyPositionedKeys m) (labels m) (key ln) = Some c \<longrightarrow>
      labelLatLng ln = c \<and> manuallyPositioned ln) \<and>
   (\<forall>lo ln. distinct (map key (labels m)) \<and> lo \<in> set (labels m) \<and>
      key lo \<in> manuallyPositionedKeys m \<and>
      ln \<in> set (labels (updateAllLabels s v fmt polygons m)) \<and> key ln = key lo \<longrightarrow>
      labelLatLng ln = labelLatLng lo \<and> manuallyPositioned ln)"
proof (intro conjI allI impI)
  fix cfgs i
  assume "i < length (labels m) \<and> manuallyPositioned (labels m ! i)"
  then have "length (labels (simulateSteps cfgs m)) = length (labels m) \<and>
             labels (simulateSteps cfgs m) ! i = labels m ! i"
    by (intro simulateSteps_manual_nth) simp_all
  then show "length (labels (simulateSteps cfgs m)) = length (labels m)"
    and "labels (simulateSteps cfgs m) ! i = labels m ! i" by simp_all
next
  fix ln c
  assume a: "ln \<in> set (labels (updateAllLabels s v fmt polygons m)) \<and>
      savedPositionsOf (manuallyPositionedKeys m) (labels m) (key ln) = Some c"
  with updateAllLabels_restored [of s v fmt polygons m]
  have "restored (savedPositionsOf (manuallyPositionedKeys m) (labels m)) ln" by blast
  with a show "labelLatLng ln = c" and "manuallyPositioned ln"
    by (simp_all add: restored_def)
next
  fix lo ln
  assume a: "distinct (map key (labels m)) \<and> lo \<in> set (labels m) \<and>
      key lo \<in> manuallyPositionedKeys m \<and>
      ln \<in> set (labels (updateAllLabels s v fmt polygons m)) \<and> key ln = key lo"
  then have sv: "savedPositionsOf (manuallyPositionedKeys m) (labels m) (key ln) =
      Some (labelLatLng lo)"
    by (simp add: savedPositionsOf_distinct)
  from a updateAllLabels_restored [of s v fmt polygons m]
  have "restored (savedPositionsOf (manuallyPositionedKeys m) (labels m)) ln" by blast
  with sv show "labelLatLng ln = labelLatLng lo" and "manuallyPositioned ln"
    by (simp_all add: restored_def)
qed


theorem manual_position_invariance_witness:
  "labels (simulateSteps [(defaultSettings, demoView), (defaultSettings, demoView)] demoManager) ! 0
     = demoLabel \<and>
   (\<exists>ln \<in> set (labels (updateAllLabels defaultSettings demoView demoFmt [demoTriangle] demoManager)).
      key ln = key demoLabel \<and> labelLatLng ln = \<lparr>lat = 3 / 10, lon = 4 / 10\<rparr> \<and>
      manuallyPositioned ln)"
proof -
  let ?new = "updateLabel defaultSettings demoView demoFmt
        (savedPositionsOf (manuallyPositionedKeys demoManager) (labels demoManager))
        demoTriangle \<lparr>lat = 0, lon = 0\<rparr> \<lparr>lat = 0, lon = 0\<rparr> 0"
  note inst = manual_position_invariance
    [of demoManager defaultSettings demoView demoFmt "[demoTriangle]"]
  have h1: "0 < length (labels demoManager) \<and> manuallyPositioned (labels demoManager ! 0)"
    by (simp add: demoManager_def demoLabel_def)
  have c1: "labels (simulateSteps [(defaultSettings, demoView), (defaultSettings, demoView)]
              demoManager) ! 0 = labels demoManager ! 0"
    using inst h1 by blast
  have mem: "?new \<in> set (labels (updateAllLabels defaultSettings demoView demoFmt [demoTriangle] demoManager))"
    by (simp add: demo_rebuild)
  have k: "key ?new = key demoLabel"
    by (simp add: updateLabel_def demoLabel_def demoTriangle_def Let_def)
  have h3: "distinct (map key (labels demoManager)) \<and> demoLabel \<in> set (labels demoManager) \<and>
      key demoLabel \<in> manuallyPositionedKeys demoManager \<and>
      ?new \<in> set (labels (updateAllLabels defaultSettings demoView demoFmt [demoTriangle] demoManager)) \<and>
      key ?new = key demoLabel"
    using mem k by (simp add: demoManager_def demoLabel_def)
  have c3: "labelLatLng ?new = labelLatLng demoLabel \<and> manuallyPositioned ?new"
    using inst h3 by blast
  have "labelLatLng demoLabel = \<lparr>lat = 3 / 10, lon = 4 / 10\<rparr>"
    by (simp add: demoLabel_def)
  with c1 c3 mem k show ?thesis
    by (auto simp: demoManager_def)
qed

subsection \<open>What a step changes\<close>

text \<open>
  Claim C10. \<^verbatim>\<open>simulateStep\<close> neither adds nor removes a label; key, polygon id, vertex index,
  anchor, text, width, height, ring and the flag \<^verbatim>\<open>manuallyPositioned\<close> of every label are
  what they were, and of the manager only the labels and the two tracking arrays change.
\<close>

theorem simulateStep_frame:
  "length (labels (fst (simulateStep s v m))) = length (labels m) \<and>
   map key (labels (fst (simulateStep s v m))) = map key (labels m) \<and>
   map polygonId (labels (fst (simulateStep s v m))) = map polygonId (labels m) \<and>
   map vertexIndex (labels (fst (simulateStep s v m))) = map vertexIndex (labels m) \<and>
   map vertexLatLng (labels (fst (simulateStep s v m))) = map vertexLatLng (labels m) \<and>
   map labelText (labels (fst (simulateStep s v m))) = map labelText (labels m) \<and>
   map width (labels (fst (simulateStep s v m))) = map width (labels m) \<and>
   map height (labels (fst (simulateStep s v m))) = map height (labels m) \<and>
   map polygonVertices (labels (fst (simulateStep s v m))) = map polygonVertices (labels m) \<and>
   map manuallyPositioned (labels (fst (simulateStep s v m))) = map manuallyPositioned (labels m) \<and>
   fst (simulateStep s v m) =
     m\<lparr>labels := labels (fst (simulateStep s v m)),
       velocities := velocities (fst (simulateStep s v m)),
       previousPositions := previousPositions (fst (simulateStep s v m))\<rparr>"
proof -
  let ?ls' = "labels (fst (simulateStep s v m))"
  have fr: "map (\<lambda>l. l\<lparr>labelLatLng := c\<rparr>) ?ls' = map (\<lambda>l. l\<lparr>labelLatLng := c\<rparr>) (labels m)" for c
    unfolding simulateStep_labels by (rule integrateAll_frame)
  have field: "map f ?ls' = map f (labels m)"
    if "\<And>l. f (l\<lparr>labelLatLng := zeroForce\<rparr>) = f l" for f :: "label \<Rightarrow> 'a"
  proof -
    have "map f ?ls' = map f (map (\<lambda>l. l\<lparr>labelLatLng := zeroForce\<rparr>) ?ls')"
      by (simp add: that)
    also have "\<dots> = map f (map (\<lambda>l. l\<lparr>labelLatLng := zeroForce\<rparr>) (labels m))"
      by (simp only: fr)
    also have "\<dots> = map f (labels m)"
      by (simp add: that)
    finally show ?thesis .
  qed
  have mgr: "fst (simulateStep s v m) =
     m\<lparr>labels := ?ls', velocities := velocities (fst (simulateStep s v m)),
       previousPositions := previousPositions (fst (simulateStep s v m))\<rparr>"
    by (simp add: simulateStep_def Let_def split: prod.splits)
  show ?thesis
    using simulateStep_length [of s v m] mgr
    by (intro conjI field) simp_all
qed

lemma integrateAll_nth:
  "j < length ls \<Longrightarrow>
   \<exists>ph'. fst (integrateAll s v k fs i ls ph) ! j =
         fst (integrateLabel s v k (fs ! (i + j)) (i + j) (ls ! j) ph')"
proof (induction ls arbitrary: i ph j)
  case Nil
  then show ?case by simp
next
  case (Cons l ls)
  obtain l' ph' where il: "integrateLabel s v k (fs ! i) i l ph = (l', ph')"
    by (cases "integrateLabel s v k (fs ! i) i l ph")
  obtain ls' ph'' where ia: "integrateAll s v k fs (Suc i) ls ph' = (ls', ph'')"
    by (cases "integrateAll s v k fs (Suc i) ls ph'")
  show ?case
  proof (cases j)
    case 0
    with il ia have "fst (integrateAll s v k fs i (l # ls) ph) ! j =
        fst (integrateLabel s v k (fs ! (i + j)) (i + j) ((l # ls) ! j) ph)" by simp
    then show ?thesis by blast
  next
    case (Suc j')
    with Cons.prems have "j' < length ls" by simp
    from Cons.IH [OF this, of "Suc i" ph'] obtain ph3 where
      "fst (integrateAll s v k fs (Suc i) ls ph') ! j' =
       fst (integrateLabel s v k (fs ! (Suc i + j')) (Suc i + j') (ls ! j') ph3)" by blast
    with Suc il ia have "fst (integrateAll s v k fs i (l # ls) ph) ! j =
        fst (integrateLabel s v k (fs ! (i + j)) (i + j) ((l # ls) ! j) ph3)" by simp
    then show ?thesis by blast
  qed
qed

lemma anchor_clamp_bound:
  fixes dx dy maxDist :: real
  assumes "0 \<le> maxDist" and "sqrt (dx * dx + dy * dy) > maxDist"
  shows "sqrt ((dx * (maxDist / sqrt (dx * dx + dy * dy))) * (dx * (maxDist / sqrt (dx * dx + dy * dy))) +
               (dy * (maxDist / sqrt (dx * dx + dy * dy))) * (dy * (maxDist / sqrt (dx * dx + dy * dy))))
         = maxDist"
proof -
  define d where "d = sqrt (dx * dx + dy * dy)"
  define r where "r = maxDist / d"
  from assms have dpos: "0 < d" unfolding d_def by linarith
  have "0 \<le> dx * dx + dy * dy" by simp
  then have sq: "d * d = dx * dx + dy * dy"
    unfolding d_def by simp
  have "(dx * r) * (dx * r) + (dy * r) * (dy * r) = (dx * dx + dy * dy) * (r * r)"
    by (simp add: algebra_simps)
  also have "\<dots> = (d * d) * (r * r)"
    by (simp only: sq)
  also have "\<dots> = maxDist * maxDist"
    using dpos unfolding r_def by (simp add: field_simps)
  finally have "sqrt ((dx * r) * (dx * r) + (dy * r) * (dy * r)) = sqrt (maxDist * maxDist)"
    by simp
  with assms(1) show ?thesis unfolding r_def d_def by simp
qed

lemma integrateLabel_position:
  assumes "\<not> manuallyPositioned l" and "0 \<le> pixelsToDegrees k (maxLabelDistance s)"
  shows "\<exists>q. separation q (vertexLatLng l) \<le> pixelsToDegrees k (maxLabelDistance s) \<and>
             labelLatLng (fst (integrateLabel s v k f i l ph)) = viewportClamp v k l q"
proof -
  define ps0 where "ps0 = (if prevPos ph i = None
                   then (prevPos ph)(i \<mapsto> \<lparr>lat = lat (labelLatLng l), lon = lon (labelLatLng l)\<rparr>)
                   else prevPos ph)"
  define newLat where "newLat = lat (labelLatLng l) + (lat (labelLatLng l) - lat (the (ps0 i))) * damping s
      + lat f * 0.15"
  define newLng where "newLng = lon (labelLatLng l) + (lon (labelLatLng l) - lon (the (ps0 i))) * damping s
      + lon f * 0.15"
  define dx where "dx = newLng - lon (vertexLatLng l)"
  define dy where "dy = newLat - lat (vertexLatLng l)"
  define maxDist where "maxDist = pixelsToDegrees k (maxLabelDistance s)"
  define q where "q = (if sqrt (dx * dx + dy * dy) > maxDist
      then \<lparr>lat = lat (vertexLatLng l) + dy * (maxDist / sqrt (dx * dx + dy * dy)),
            lon = lon (vertexLatLng l) + dx * (maxDist / sqrt (dx * dx + dy * dy))\<rparr>
      else \<lparr>lat = newLat, lon = newLng\<rparr>)"
  have pos: "labelLatLng (fst (integrateLabel s v k f i l ph)) = viewportClamp v k l q"
    using assms(1)
    by (simp add: integrateLabel_def Let_def viewportClamp_def q_def dx_def dy_def maxDist_def
        newLat_def newLng_def ps0_def split: prod.splits)
  have "separation q (vertexLatLng l) \<le> maxDist"
  proof (cases "sqrt (dx * dx + dy * dy) > maxDist")
    case True
    with assms(2) anchor_clamp_bound [of maxDist dx dy] show ?thesis
      by (simp add: separation_def q_def maxDist_def)
  next
    case False
    then show ?thesis
      by (simp add: separation_def q_def dx_def dy_def)
  qed
  with pos show ?thesis unfolding maxDist_def by blast
qed

subsection \<open>One step of the small scene, computed\<close>

text \<open>
  Comparisons of a square root with a bound are decided on the squares.
\<close>

lemma sqrt_less_iff_sq: "0 \<le> c \<Longrightarrow> sqrt x < c \<longleftrightarrow> x < c * c"
proof -
  assume "0 \<le> c"
  then have "sqrt (c * c) = c" by simp
  then show ?thesis using real_sqrt_less_iff [of x "c * c"] by simp
qed

lemma less_sqrt_iff_sq: "0 \<le> c \<Longrightarrow> c < sqrt x \<longleftrightarrow> c * c < x"
proof -
  assume "0 \<le> c"
  then have "sqrt (c * c) = c" by simp
  then show ?thesis using real_sqrt_less_iff [of "c * c" x] by simp
qed

lemma sqrt_far: "0 \<le> c \<Longrightarrow> c * c \<le> x \<Longrightarrow> \<not> sqrt x < c"
  by (simp add: sqrt_less_iff_sq)

lemma sqrt_beyond: "0 \<le> c \<Longrightarrow> c * c < x \<Longrightarrow> c < sqrt x"
  by (simp add: less_sqrt_iff_sq)

lemma sqrt_within: "0 \<le> c \<Longrightarrow> x \<le> c * c \<Longrightarrow> \<not> c < sqrt x"
  by (simp add: less_sqrt_iff_sq)

lemma edgeScale: "stepScale edgeView = 156543.03392 / 1024"
  by (simp add: stepScale_def edgeView_def)

lemma rest_vertexForces:
  "vertexForces defaultSettings (stepScale edgeView) [restLabel] = [zeroForce]"
proof -
  have g1: "\<not> sqrt ((52 / 100 - 56 / 100) * (52 / 100 - 56 / 100) +
                     (53 / 100 - 53 / 100) * (53 / 100 - 53 / 100))
             < pixelsToDegrees (156543.03392 / 1024) 15"
    by (rule sqrt_far) (simp_all add: pixelsToDegrees_def)
  have g2: "\<not> sqrt ((52 / 100 - 50 / 100) * (52 / 100 - 50 / 100) +
                     (53 / 100 - 56 / 100) * (53 / 100 - 56 / 100))
             < pixelsToDegrees (156543.03392 / 1024) 15"
    by (rule sqrt_far) (simp_all add: pixelsToDegrees_def)
  show ?thesis
    using g1 g2
    by (simp add: vertexForces_def allVertices_def restLabel_def smallTriangle_def
        vertexRepulsion_def Let_def edgeScale pixelsToDegrees_def)
qed

lemma rest_forces:
  "computeForces defaultSettings (stepScale edgeView) [restLabel] =
     [\<lparr>lat = - (3 / 1000), lon = - (2 / 1000)\<rparr>]"
proof -
  have g: "1 / 100000 < sqrt ((50 / 100 - 52 / 100) * (50 / 100 - 52 / 100) +
                     (50 / 100 - 53 / 100) * (50 / 100 - 53 / 100))"
    by (rule sqrt_beyond) simp_all
  show ?thesis
    unfolding computeForces_def rest_vertexForces Let_def
    using g
    by (simp add: labelRound_def leaderRound_def leaderPush_def springForce_def centerRepulsion_def
      restLabel_def smallTriangle_def centroid_def zeroForce_def pushBy_def defaultSettings_def
      Let_def)
qed

lemma rest_integrate:
  "fst (integrateLabel defaultSettings edgeView (stepScale edgeView)
          \<lparr>lat = - (3 / 1000), lon = - (2 / 1000)\<rparr> 0 restLabel
          \<lparr>vel = Map.empty, prevPos = Map.empty, totalEnergy = 0\<rparr>) =
   restLabel\<lparr>labelLatLng := \<lparr>lat = 52955 / 100000, lon = 5197 / 10000\<rparr>\<rparr>"
proof -
  have g: "\<not> pixelsToDegrees (156543.03392 / 1024) 80 <
      sqrt ((5197 / 10000 - 50 / 100) * (5197 / 10000 - 50 / 100) +
            (52955 / 100000 - 50 / 100) * (52955 / 100000 - 50 / 100))"
    by (rule sqrt_within) (simp_all add: pixelsToDegrees_def)
  have sel: "south edgeView = 0" "north edgeView = 1" "west edgeView = 0" "east edgeView = 1"
    by (simp_all add: edgeView_def)
  show ?thesis
    using g
    by (simp add: integrateLabel_def Let_def restLabel_def
        defaultSettings_def edgeScale pixelsToDegrees_def clampLat_def clampLng_def sel)
qed

lemma integrateAll_single:
  "fst (integrateAll s v k fs i [l] ph) = [fst (integrateLabel s v k (fs ! i) i l ph)]"
  by (cases "integrateLabel s v k (fs ! i) i l ph") simp

lemma rest_step:
  "labels (fst (simulateStep defaultSettings edgeView restManager)) =
     [restLabel\<lparr>labelLatLng := \<lparr>lat = 52955 / 100000, lon = 5197 / 10000\<rparr>\<rparr>]"
proof -
  have l: "labels restManager = [restLabel]"
    and vs: "velocities restManager = Map.empty"
    and ps: "previousPositions restManager = Map.empty"
    by (simp_all add: restManager_def)
  show ?thesis
    unfolding simulateStep_labels l vs ps rest_forces integrateAll_single
    by (simp only: nth_Cons_0 rest_integrate)
qed

subsection \<open>The distance to the anchor after a step\<close>

lemma stepScale_pos: "0 < stepScale v"
  by (simp add: stepScale_def)

lemma pixelsToDegrees_nonneg: "0 < k \<Longrightarrow> 0 \<le> px \<Longrightarrow> 0 \<le> pixelsToDegrees k px"
  by (simp add: pixelsToDegrees_def)

lemma simulateStep_nth_position:
  assumes "i < length (labels m)" and "\<not> manuallyPositioned (labels m ! i)"
    and "0 \<le> maxLabelDistance s"
  shows "\<exists>q. separation q (vertexLatLng (labels m ! i))
              \<le> pixelsToDegrees (stepScale v) (maxLabelDistance s) \<and>
            labels (fst (simulateStep s v m)) ! i =
              (labels m ! i)\<lparr>labelLatLng := viewportClamp v (stepScale v) (labels m ! i) q\<rparr>"
proof -
  let ?k = "stepScale v"
  let ?l = "labels m ! i"
  from integrateAll_nth [OF assms(1), of s v ?k "computeForces s ?k (labels m)" 0
      "\<lparr>vel = velocities m, prevPos = previousPositions m, totalEnergy = 0\<rparr>"]
  obtain ph' where nth: "labels (fst (simulateStep s v m)) ! i =
      fst (integrateLabel s v ?k (computeForces s ?k (labels m) ! i) i ?l ph')"
    unfolding simulateStep_labels by auto
  have nn: "0 \<le> pixelsToDegrees ?k (maxLabelDistance s)"
    using assms(3) stepScale_pos [of v] by (rule_tac pixelsToDegrees_nonneg) simp_all
  from integrateLabel_position [OF assms(2) nn, of v "computeForces s ?k (labels m) ! i" i ph']
  obtain q where q: "separation q (vertexLatLng ?l) \<le> pixelsToDegrees ?k (maxLabelDistance s)"
    and pos: "labelLatLng (fst (integrateLabel s v ?k (computeForces s ?k (labels m) ! i) i ?l ph'))
        = viewportClamp v ?k ?l q" by blast
  from integrateLabel_frame [of s v ?k "computeForces s ?k (labels m) ! i" i ?l ph']
  obtain c where c: "fst (integrateLabel s v ?k (computeForces s ?k (labels m) ! i) i ?l ph')
      = ?l\<lparr>labelLatLng := c\<rparr>" by blast
  with pos have "c = viewportClamp v ?k ?l q" by simp
  with c nth have "labels (fst (simulateStep s v m)) ! i =
      ?l\<lparr>labelLatLng := viewportClamp v ?k ?l q\<rparr>" by simp
  with q show ?thesis by blast
qed

lemma clamp_strict_id:
  fixes lo hi x :: real
  assumes "lo < max lo (min hi x)" and "max lo (min hi x) < hi"
  shows "max lo (min hi x) = x"
  using assms by (auto simp: max_def min_def split: if_splits)

lemma viewportClamp_strict_id:
  assumes "strictlyInsidePadded v k l (viewportClamp v k l q)"
  shows "viewportClamp v k l q = q"
proof -
  from assms have "clampLat v k l (lat q) = lat q"
    unfolding strictlyInsidePadded_def viewportClamp_def clampLat_def Let_def
    by (intro clamp_strict_id) simp_all
  moreover from assms have "clampLng v k l (lon q) = lon q"
    unfolding strictlyInsidePadded_def viewportClamp_def clampLng_def Let_def
    by (intro clamp_strict_id) simp_all
  ultimately show ?thesis by (simp add: viewportClamp_def)
qed

text \<open>
  Claim C2, as amended. With \<^verbatim>\<open>maxLabelDistance\<close> not negative, the position of a label
  that is not manually positioned is, after a step, the clamp to the padded view of a
  point whose distance to the anchor is at most \<^verbatim>\<open>maxLabelDistance\<close> (in degrees) plus
  \<open>eps\<close>, for every \<open>eps\<close> above 0: the small epsilon of the claim, which leaves room for the
  rounding of the clamp to the anchor. When the label ends strictly inside the padded view,
  the clamp to the view has not moved it and the bound holds for its position. Nothing
  bounds the distance when the clamp to the view moves the label, or when
  \<^verbatim>\<open>maxLabelDistance\<close> is negative.
\<close>

theorem anchor_distance_bound:
  "i < length (labels m) \<and> \<not> manuallyPositioned (labels m ! i) \<and> 0 \<le> maxLabelDistance s \<and>
   0 < eps \<longrightarrow>
     (\<exists>q. separation q (vertexLatLng (labels m ! i))
            \<le> pixelsToDegrees (stepScale v) (maxLabelDistance s) + eps \<and>
          labels (fst (simulateStep s v m)) ! i =
            (labels m ! i)\<lparr>labelLatLng := viewportClamp v (stepScale v) (labels m ! i) q\<rparr>) \<and>
     (strictlyInsidePadded v (stepScale v) (labels m ! i)
        (labelLatLng (labels (fst (simulateStep s v m)) ! i)) \<longrightarrow>
      separation (labelLatLng (labels (fst (simulateStep s v m)) ! i))
                 (vertexLatLng (labels (fst (simulateStep s v m)) ! i))
        \<le> pixelsToDegrees (stepScale v) (maxLabelDistance s) + eps)"
proof (intro impI)
  assume a: "i < length (labels m) \<and> \<not> manuallyPositioned (labels m ! i) \<and>
      0 \<le> maxLabelDistance s \<and> 0 < eps"
  then obtain q where q: "separation q (vertexLatLng (labels m ! i))
              \<le> pixelsToDegrees (stepScale v) (maxLabelDistance s)"
    and st: "labels (fst (simulateStep s v m)) ! i =
              (labels m ! i)\<lparr>labelLatLng := viewportClamp v (stepScale v) (labels m ! i) q\<rparr>"
    using simulateStep_nth_position [of i m s v] by blast
  from q a have q': "separation q (vertexLatLng (labels m ! i))
              \<le> pixelsToDegrees (stepScale v) (maxLabelDistance s) + eps" by simp
  have "separation (labelLatLng (labels (fst (simulateStep s v m)) ! i))
                 (vertexLatLng (labels (fst (simulateStep s v m)) ! i))
        \<le> pixelsToDegrees (stepScale v) (maxLabelDistance s) + eps"
    if "strictlyInsidePadded v (stepScale v) (labels m ! i)
        (labelLatLng (labels (fst (simulateStep s v m)) ! i))"
  proof -
    from that st have "viewportClamp v (stepScale v) (labels m ! i) q = q"
      by (intro viewportClamp_strict_id) simp
    with st q' show ?thesis by simp
  qed
  with q' st show "(\<exists>q. separation q (vertexLatLng (labels m ! i))
            \<le> pixelsToDegrees (stepScale v) (maxLabelDistance s) + eps \<and>
          labels (fst (simulateStep s v m)) ! i =
            (labels m ! i)\<lparr>labelLatLng := viewportClamp v (stepScale v) (labels m ! i) q\<rparr>) \<and>
     (strictlyInsidePadded v (stepScale v) (labels m ! i)
        (labelLatLng (labels (fst (simulateStep s v m)) ! i)) \<longrightarrow>
      separation (labelLatLng (labels (fst (simulateStep s v m)) ! i))
                 (vertexLatLng (labels (fst (simulateStep s v m)) ! i))
        \<le> pixelsToDegrees (stepScale v) (maxLabelDistance s) + eps)"
    by blast
qed

theorem anchor_distance_bound_witness:
  "strictlyInsidePadded edgeView (stepScale edgeView) (labels restManager ! 0)
     (labelLatLng (labels (fst (simulateStep defaultSettings edgeView restManager)) ! 0)) \<and>
   separation (labelLatLng (labels (fst (simulateStep defaultSettings edgeView restManager)) ! 0))
              (vertexLatLng (labels (fst (simulateStep defaultSettings edgeView restManager)) ! 0))
     \<le> pixelsToDegrees (stepScale edgeView) (maxLabelDistance defaultSettings) + 1 / 10 ^ 9"
proof -
  have h: "0 < length (labels restManager) \<and> \<not> manuallyPositioned (labels restManager ! 0) \<and>
           0 \<le> maxLabelDistance defaultSettings \<and> (0::real) < 1 / 10 ^ 9"
    by (simp add: restManager_def restLabel_def defaultSettings_def)
  have sel: "south edgeView = 0" "north edgeView = 1" "west edgeView = 0" "east edgeView = 1"
    by (simp_all add: edgeView_def)
  have inside: "strictlyInsidePadded edgeView (stepScale edgeView) (labels restManager ! 0)
     (labelLatLng (labels (fst (simulateStep defaultSettings edgeView restManager)) ! 0))"
    unfolding rest_step
    by (simp add: strictlyInsidePadded_def restManager_def restLabel_def edgeScale sel
        pixelsToDegrees_def)
  from anchor_distance_bound [of 0 restManager defaultSettings "1 / 10 ^ 9" edgeView] h inside
  show ?thesis by blast
qed

lemma abs_le_sqrt_sum: "\<bar>x\<bar> \<le> sqrt (x * x + y * y)"
proof -
  have "sqrt (x * x) \<le> sqrt (x * x + y * y)" by (rule real_sqrt_le_mono) simp
  then show ?thesis by simp
qed

text \<open>
  The step of the label in motion under the negative \<^verbatim>\<open>maxLabelDistance\<close>: the Verlet point
  is 0.05 degrees from the anchor, which is more than the negative bound, and the clamp
  scales it by the negative quotient, to the other side of the anchor.
\<close>

lemma drift_vertexForces:
  "vertexForces backSettings (stepScale edgeView) [restLabel] = [zeroForce]"
proof -
  have g1: "\<not> sqrt ((52 / 100 - 56 / 100) * (52 / 100 - 56 / 100) +
                     (53 / 100 - 53 / 100) * (53 / 100 - 53 / 100))
             < pixelsToDegrees (156543.03392 / 1024) 15"
    by (rule sqrt_far) (simp_all add: pixelsToDegrees_def)
  have g2: "\<not> sqrt ((52 / 100 - 50 / 100) * (52 / 100 - 50 / 100) +
                     (53 / 100 - 56 / 100) * (53 / 100 - 56 / 100))
             < pixelsToDegrees (156543.03392 / 1024) 15"
    by (rule sqrt_far) (simp_all add: pixelsToDegrees_def)
  show ?thesis
    using g1 g2
    by (simp add: vertexForces_def allVertices_def restLabel_def smallTriangle_def
        vertexRepulsion_def Let_def edgeScale pixelsToDegrees_def)
qed

lemma drift_forces:
  "computeForces backSettings (stepScale edgeView) [restLabel] =
     [\<lparr>lat = - (3 / 1000), lon = - (2 / 1000)\<rparr>]"
proof -
  have g: "1 / 100000 < sqrt ((50 / 100 - 52 / 100) * (50 / 100 - 52 / 100) +
                     (50 / 100 - 53 / 100) * (50 / 100 - 53 / 100))"
    by (rule sqrt_beyond) simp_all
  show ?thesis
    unfolding computeForces_def drift_vertexForces Let_def
    using g
    by (simp add: labelRound_def leaderRound_def leaderPush_def springForce_def centerRepulsion_def
      restLabel_def smallTriangle_def centroid_def zeroForce_def pushBy_def defaultSettings_def
      backSettings_def Let_def)
qed

lemma sqrt_400: "sqrt (1 / 400 :: real) = 1 / 20"
  by (rule real_sqrt_unique) (simp_all add: power2_eq_square)

lemma drift_integrate:
  "fst (integrateLabel backSettings edgeView (stepScale edgeView)
          \<lparr>lat = - (3 / 1000), lon = - (2 / 1000)\<rparr> 0 restLabel
          \<lparr>vel = Map.empty, prevPos = [0 \<mapsto> \<lparr>lat = 6151 / 12000, lon = 3017 / 6000\<rparr>],
           totalEnergy = 0\<rparr>) =
   restLabel\<lparr>labelLatLng :=
     \<lparr>lat = 1 / 2 - (4 / 5) * pixelsToDegrees (156543.03392 / 1024) 80,
      lon = 1 / 2 - (3 / 5) * pixelsToDegrees (156543.03392 / 1024) 80\<rparr>\<rparr>"
proof -
  have sel: "south edgeView = 0" "north edgeView = 1" "west edgeView = 0" "east edgeView = 1"
    by (simp_all add: edgeView_def)
  show ?thesis
    by (simp add: integrateLabel_def Let_def restLabel_def sqrt_400
        defaultSettings_def backSettings_def edgeScale pixelsToDegrees_def clampLat_def clampLng_def sel)
qed


lemma drift_step:
  "labels (fst (simulateStep backSettings edgeView driftManager)) =
     [restLabel\<lparr>labelLatLng :=
        \<lparr>lat = 1 / 2 - (4 / 5) * pixelsToDegrees (156543.03392 / 1024) 80,
         lon = 1 / 2 - (3 / 5) * pixelsToDegrees (156543.03392 / 1024) 80\<rparr>\<rparr>]"
proof -
  have l: "labels driftManager = [restLabel]"
    and vs: "velocities driftManager = Map.empty"
    and ps: "previousPositions driftManager = [0 \<mapsto> \<lparr>lat = 6151 / 12000, lon = 3017 / 6000\<rparr>]"
    by (simp_all add: driftManager_def restManager_def)
  show ?thesis
    unfolding simulateStep_labels l vs ps drift_forces integrateAll_single
    by (simp only: nth_Cons_0 drift_integrate)
qed

lemma sea_far:
  "\<not> separation (labelLatLng (labels (fst (simulateStep defaultSettings seaView edgeManager)) ! 0))
                (vertexLatLng (labels (fst (simulateStep defaultSettings seaView edgeManager)) ! 0))
       \<le> pixelsToDegrees (stepScale seaView) (maxLabelDistance defaultSettings) +
          pixelsToDegrees (stepScale seaView) 10"
proof -
  let ?k = "stepScale seaView"
  let ?l' = "labels (fst (simulateStep defaultSettings seaView edgeManager)) ! 0"
  have nm: "\<not> manuallyPositioned (labels edgeManager ! 0)"
    by (simp add: edgeManager_def edgeLabel_def)
  have l0: "labels edgeManager ! 0 = edgeLabel" by (simp add: edgeManager_def)
  have "0 < length (labels edgeManager)" by (simp add: edgeManager_def)
  from simulateStep_nth_position [OF this nm, of defaultSettings seaView]
  obtain q where st: "?l' = edgeLabel\<lparr>labelLatLng := viewportClamp seaView ?k edgeLabel q\<rparr>"
    unfolding l0 by (auto simp: defaultSettings_def)
  have k: "?k = 156543.03392 / 1024"
    by (simp add: stepScale_def seaView_def)
  have "west seaView + pixelsToDegrees ?k (width edgeLabel / 2 + 10)
          \<le> clampLng seaView ?k edgeLabel (lon q)"
    unfolding clampLng_def Let_def by simp
  then have lo: "- 124 + pixelsToDegrees ?k (177 / 2 + 10) \<le> lon (labelLatLng ?l')"
    unfolding st by (simp add: viewportClamp_def seaView_def edgeLabel_def)
  have anchor: "vertexLatLng ?l' = \<lparr>lat = - (125 / 10), lon = - (123995 / 1000)\<rparr>"
    unfolding st by (simp add: edgeLabel_def)
  have "\<bar>lon (labelLatLng ?l') - lon (vertexLatLng ?l')\<bar>
          \<le> separation (labelLatLng ?l') (vertexLatLng ?l')"
    unfolding separation_def by (rule abs_le_sqrt_sum)
  moreover have "pixelsToDegrees ?k (maxLabelDistance defaultSettings) + pixelsToDegrees ?k 10
      < lon (labelLatLng ?l') - lon (vertexLatLng ?l')"
    using lo unfolding anchor k by (simp add: pixelsToDegrees_def defaultSettings_def)
  ultimately have "pixelsToDegrees ?k (maxLabelDistance defaultSettings) + pixelsToDegrees ?k 10
      < separation (labelLatLng ?l') (vertexLatLng ?l')" by linarith
  then show ?thesis by simp
qed

lemma drift_far:
  "strictlyInsidePadded edgeView (stepScale edgeView) (labels driftManager ! 0)
     (labelLatLng (labels (fst (simulateStep backSettings edgeView driftManager)) ! 0)) \<and>
   \<not> separation (labelLatLng (labels (fst (simulateStep backSettings edgeView driftManager)) ! 0))
                (vertexLatLng (labels (fst (simulateStep backSettings edgeView driftManager)) ! 0))
       \<le> pixelsToDegrees (stepScale edgeView) (maxLabelDistance backSettings) + 1 / 10"
proof -
  have sel: "south edgeView = 0" "north edgeView = 1" "west edgeView = 0" "east edgeView = 1"
    by (simp_all add: edgeView_def)
  have inside: "strictlyInsidePadded edgeView (stepScale edgeView) (labels driftManager ! 0)
     (labelLatLng (labels (fst (simulateStep backSettings edgeView driftManager)) ! 0))"
    unfolding drift_step
    by (simp add: strictlyInsidePadded_def driftManager_def restManager_def restLabel_def
        edgeScale sel pixelsToDegrees_def)
  have "\<bar>lon (labelLatLng (labels (fst (simulateStep backSettings edgeView driftManager)) ! 0)) -
         lon (vertexLatLng (labels (fst (simulateStep backSettings edgeView driftManager)) ! 0))\<bar>
     \<le> separation (labelLatLng (labels (fst (simulateStep backSettings edgeView driftManager)) ! 0))
                (vertexLatLng (labels (fst (simulateStep backSettings edgeView driftManager)) ! 0))"
    unfolding separation_def by (rule abs_le_sqrt_sum)
  moreover have "pixelsToDegrees (stepScale edgeView) (maxLabelDistance backSettings) + 1 / 10
     < \<bar>lon (labelLatLng (labels (fst (simulateStep backSettings edgeView driftManager)) ! 0)) -
         lon (vertexLatLng (labels (fst (simulateStep backSettings edgeView driftManager)) ! 0))\<bar>"
    unfolding drift_step
    by (simp add: restLabel_def edgeScale pixelsToDegrees_def backSettings_def defaultSettings_def)
  ultimately show ?thesis using inside by linarith
qed

text \<open>
  The claim as stated fails in two ways. The label of a vertex near the western edge of
  the view is clamped to more than 90 pixels from its anchor, with \<^verbatim>\<open>maxLabelDistance\<close> at
  80 pixels. With \<^verbatim>\<open>maxLabelDistance\<close> at -80 pixels a label that ends strictly inside the
  padded view stands 80 pixels from its anchor, more than a tenth of a degree beyond the
  negative bound.
\<close>

theorem anchor_distance_counterexample:
  "\<not> manuallyPositioned (labels edgeManager ! 0) \<and>
   \<not> separation (labelLatLng (labels (fst (simulateStep defaultSettings seaView edgeManager)) ! 0))
                (vertexLatLng (labels (fst (simulateStep defaultSettings seaView edgeManager)) ! 0))
       \<le> pixelsToDegrees (stepScale seaView) (maxLabelDistance defaultSettings) +
          pixelsToDegrees (stepScale seaView) 10 \<and>
   \<not> manuallyPositioned (labels driftManager ! 0) \<and>
   strictlyInsidePadded edgeView (stepScale edgeView) (labels driftManager ! 0)
     (labelLatLng (labels (fst (simulateStep backSettings edgeView driftManager)) ! 0)) \<and>
   \<not> separation (labelLatLng (labels (fst (simulateStep backSettings edgeView driftManager)) ! 0))
                (vertexLatLng (labels (fst (simulateStep backSettings edgeView driftManager)) ! 0))
       \<le> pixelsToDegrees (stepScale edgeView) (maxLabelDistance backSettings) + 1 / 10"
proof -
  have "\<not> manuallyPositioned (labels edgeManager ! 0)"
    by (simp add: edgeManager_def edgeLabel_def)
  moreover have "\<not> manuallyPositioned (labels driftManager ! 0)"
    by (simp add: driftManager_def restManager_def restLabel_def)
  ultimately show ?thesis using sea_far drift_far by blast
qed

subsection \<open>Straight vertices\<close>

lemma straight_quotient:
  fixes x y c :: real
  assumes "0 < c" and "sqrt (x * x + y * y) \<noteq> 0"
  shows "((- c * x) * x + (- c * y) * y) /
         (sqrt ((- c * x) * (- c * x) + (- c * y) * (- c * y)) * sqrt (x * x + y * y)) = - 1"
proof -
  define r where "r = x * x + y * y"
  have rpos: "0 \<le> r" unfolding r_def by simp
  from assms(2) have rne: "r \<noteq> 0" unfolding r_def by simp
  have "(- c * x) * (- c * x) + (- c * y) * (- c * y) = (c * c) * r"
    unfolding r_def by (simp add: algebra_simps)
  then have "sqrt ((- c * x) * (- c * x) + (- c * y) * (- c * y)) = c * sqrt r"
    using assms(1) by (simp add: real_sqrt_mult)
  moreover have "(- c * x) * x + (- c * y) * y = - (c * r)"
    unfolding r_def by (simp add: algebra_simps)
  moreover have "sqrt r * sqrt r = r" using rpos by simp
  ultimately have "((- c * x) * x + (- c * y) * y) /
         (sqrt ((- c * x) * (- c * x) + (- c * y) * (- c * y)) * sqrt (x * x + y * y))
       = - (c * r) / (c * (sqrt r * sqrt r))"
    unfolding r_def by (simp add: mult.assoc)
  also have "\<dots> = - 1" using assms(1) rne rpos by simp
  finally show ?thesis .
qed

lemma zero_edge: "(x::real) = 0 \<Longrightarrow> y = 0 \<Longrightarrow> sqrt (x * x + y * y) = 0"
  by simp

lemma straight_angle: "straightAt ring i \<Longrightarrow> calculateVertexAngle ring i = 180"
proof -
  assume st: "straightAt ring i"
  define n where "n = length ring"
  define prev where "prev = ring ! ((i + n - 1) mod n)"
  define curr where "curr = ring ! i"
  define nxt where "nxt = ring ! ((i + 1) mod n)"
  define v1x where "v1x = lon prev - lon curr"
  define v1y where "v1y = lat prev - lat curr"
  define v2x where "v2x = lon nxt - lon curr"
  define v2y where "v2y = lat nxt - lat curr"
  have ang: "calculateVertexAngle ring i =
      (if sqrt (v1x * v1x + v1y * v1y) = 0 \<or> sqrt (v2x * v2x + v2y * v2y) = 0 then 180
       else arccos (max (- 1) (min 1 ((v1x * v2x + v1y * v2y) /
              (sqrt (v1x * v1x + v1y * v1y) * sqrt (v2x * v2x + v2y * v2y))))) * (180 / pi))"
    unfolding calculateVertexAngle_def Let_def v1x_def v1y_def v2x_def v2y_def prev_def curr_def
      nxt_def n_def ..
  from st consider (a) "v1x = 0" "v1y = 0" | (b) "v2x = 0" "v2y = 0"
    | (c) c where "0 < c" "v1x = - c * v2x" "v1y = - c * v2y"
    unfolding straightAt_def Let_def v1x_def v1y_def v2x_def v2y_def prev_def curr_def
      nxt_def n_def by auto
  then show ?thesis
  proof cases
    case a
    then show ?thesis unfolding ang by simp
  next
    case b
    then show ?thesis unfolding ang by simp
  next
    case c
    show ?thesis
    proof (cases "sqrt (v2x * v2x + v2y * v2y) = 0")
      case True
      then show ?thesis unfolding ang by simp
    next
      case False
      from straight_quotient [OF c(1) False]
      have q: "(v1x * v2x + v1y * v2y) /
              (sqrt (v1x * v1x + v1y * v1y) * sqrt (v2x * v2x + v2y * v2y)) = - 1"
        unfolding c(2) c(3) .
      show ?thesis unfolding ang q by simp
    qed
  qed
qed

subsection \<open>The angle filter\<close>

lemma placeVertex_skip:
  "\<not> inb \<or> ang > 180 - minVertexAngle s \<Longrightarrow> placeVertex s d same new vertex ang inb st = st"
  by (cases st) (auto simp: placeVertex_def)

lemma placeVertex_inv_pass:
  assumes "\<forall>l \<in> set (snd st). P l"
    and "inb \<Longrightarrow> ang \<le> 180 - minVertexAngle s \<Longrightarrow> P new"
  shows "\<forall>l \<in> set (snd (placeVertex s d same new vertex ang inb st)). P l"
proof (cases "\<not> inb \<or> ang > 180 - minVertexAngle s")
  case True
  then show ?thesis using assms(1) by (simp only: placeVertex_skip) 
next
  case False
  then have "P new" using assms(2) by simp
  with assms(1) show ?thesis by (rule placeVertex_inv)
qed

lemma updateLabel_ring [simp]:
  "polygonVertices (updateLabel s v fmt saved p centre vertex index) = phull p"
  "vertexIndex (updateLabel s v fmt saved p centre vertex index) = index"
  "polygonId (updateLabel s v fmt saved p centre vertex index) = pid p"
  by (simp_all add: updateLabel_def Let_def)

lemma setLabelsLabel_ring [simp]:
  "polygonVertices (setLabelsLabel s v fmt polyId vertices centre vertex index) = vertices"
  "vertexIndex (setLabelsLabel s v fmt polyId vertices centre vertex index) = index"
  "polygonId (setLabelsLabel s v fmt polyId vertices centre vertex index) = polyId"
  by (simp_all add: setLabelsLabel_def)

lemma updateVertex_sharp:
  "\<forall>l \<in> set (snd st). sharpEnough s l \<Longrightarrow>
   \<forall>l \<in> set (snd (updateVertex s v fmt saved p centre st vi)). sharpEnough s l"
proof (cases vi)
  case (Pair vertex index)
  assume "\<forall>l \<in> set (snd st). sharpEnough s l"
  then show ?thesis
    unfolding updateVertex_def Pair prod.case
    by (rule placeVertex_inv_pass) (simp add: sharpEnough_def)
qed

lemma updatePolygon_sharp:
  assumes "\<forall>l \<in> set (snd st). sharpEnough s l"
  shows "\<forall>l \<in> set (snd (updatePolygon s v fmt saved st p)). sharpEnough s l"
proof -
  have "\<forall>l \<in> set (snd (foldl (updateVertex s v fmt saved p c) st xs)). sharpEnough s l" for c xs
    using assms by (rule foldl_inv) (rule updateVertex_sharp)
  with assms show ?thesis unfolding updatePolygon_def by simp
qed

lemma updateAllLabels_sharp:
  "\<forall>l \<in> set (labels (updateAllLabels s v fmt polygons m)). sharpEnough s l"
  unfolding updateAllLabels_labels
proof (rule foldl_inv)
  show "\<forall>l \<in> set (snd ([], [])). sharpEnough s l" by simp
qed (rule updatePolygon_sharp)

lemma setLabelsVertex_sharp:
  "\<forall>l \<in> set (snd st). polygonId l = polyId \<longrightarrow> sharpEnough s l \<Longrightarrow>
   \<forall>l \<in> set (snd (setLabelsVertex s v fmt polyId vertices centre st vi)).
      polygonId l = polyId \<longrightarrow> sharpEnough s l"
proof (cases vi)
  case (Pair vertex index)
  assume "\<forall>l \<in> set (snd st). polygonId l = polyId \<longrightarrow> sharpEnough s l"
  then show ?thesis
    unfolding setLabelsVertex_def Pair prod.case
    by (rule placeVertex_inv_pass) (simp add: sharpEnough_def)
qed

lemma removeLabels_labels:
  "labels (removeLabels polyId m) = filter (\<lambda>l. polygonId l \<noteq> polyId) (labels m)"
  by (simp add: removeLabels_def stopSimulation_def Let_def)

lemma setLabels_labels:
  "labels (setLabels s v fmt polyId vertices m) =
     (if vertices = [] \<or> visibleVertices v vertices = []
      then filter (\<lambda>l. polygonId l \<noteq> polyId) (labels m)
      else snd (foldl (setLabelsVertex s v fmt polyId vertices (centroid (visibleVertices v vertices)))
                  ([], filter (\<lambda>l. polygonId l \<noteq> polyId) (labels m))
                  (zip vertices [0 ..< length vertices])))"
  by (simp add: setLabels_def Let_def startSimulation_def removeLabels_labels)

lemma setLabels_sharp:
  "\<forall>l \<in> set (labels (setLabels s v fmt polyId vertices m)).
      polygonId l = polyId \<longrightarrow> sharpEnough s l"
proof (cases "vertices = [] \<or> visibleVertices v vertices = []")
  case True
  then show ?thesis by (auto simp: setLabels_labels)
next
  case False
  have "\<forall>l \<in> set (snd (foldl (setLabelsVertex s v fmt polyId vertices (centroid (visibleVertices v vertices)))
                  ([], filter (\<lambda>l. polygonId l \<noteq> polyId) (labels m))
                  (zip vertices [0 ..< length vertices]))).
      polygonId l = polyId \<longrightarrow> sharpEnough s l"
  proof (rule foldl_inv)
    show "\<forall>l \<in> set (snd ([], filter (\<lambda>l. polygonId l \<noteq> polyId) (labels m))).
        polygonId l = polyId \<longrightarrow> sharpEnough s l" by simp
  qed (rule setLabelsVertex_sharp)
  with False show ?thesis by (simp add: setLabels_labels)
qed

lemma zero_edge_angle: "zeroEdgeAt ring i \<Longrightarrow> calculateVertexAngle ring i = 180"
  unfolding zeroEdgeAt_def calculateVertexAngle_def Let_def by auto

text \<open>
  Claim C4, as amended. At a vertex that has an edge of length zero
  \<^verbatim>\<open>calculateVertexAngle\<close> returns 180, by its degenerate branch. \<^verbatim>\<open>updateAllLabels\<close> and
  \<^verbatim>\<open>setLabels\<close> keep a label only for a vertex whose angle, as \<^verbatim>\<open>calculateVertexAngle\<close>
  returned it, did not exceed the difference \<^verbatim>\<open>180 - minVertexAngle\<close>; so a vertex for
  which it returned 180 has no label whenever that difference is below 180. The statement
  is about the returned value and the computed difference. At a vertex that lies between
  two distinct neighbours on one line the returned value is the arc cosine of a quotient
  of square roots: it is 180 over the reals (lemma \<open>straight_angle\<close>), and in floating
  point it is subject to the rounding of the quotient and of \<^verbatim>\<open>Math.acos\<close>, which is
  outside the model.
\<close>

theorem straight_vertex_unlabelled:
  "(\<forall>ring i. i < length ring \<and> zeroEdgeAt ring i \<longrightarrow> calculateVertexAngle ring i = 180) \<and>
   (\<forall>l \<in> set (labels (updateAllLabels s v fmt polygons m)).
      \<not> calculateVertexAngle (polygonVertices l) (vertexIndex l) > 180 - minVertexAngle s) \<and>
   (\<forall>l \<in> set (labels (setLabels s v fmt polyId vertices m)).
      polygonId l = polyId \<longrightarrow>
      \<not> calculateVertexAngle (polygonVertices l) (vertexIndex l) > 180 - minVertexAngle s) \<and>
   (180 - minVertexAngle s < 180 \<longrightarrow>
      (\<forall>l \<in> set (labels (updateAllLabels s v fmt polygons m)).
         calculateVertexAngle (polygonVertices l) (vertexIndex l) \<noteq> 180) \<and>
      (\<forall>l \<in> set (labels (setLabels s v fmt polyId vertices m)).
         polygonId l = polyId \<longrightarrow>
         calculateVertexAngle (polygonVertices l) (vertexIndex l) \<noteq> 180))"
proof -
  have u: "\<not> calculateVertexAngle (polygonVertices l) (vertexIndex l) > 180 - minVertexAngle s"
    if "l \<in> set (labels (updateAllLabels s v fmt polygons m))" for l
    using updateAllLabels_sharp [of s v fmt polygons m] that by (auto simp: sharpEnough_def)
  have t: "\<not> calculateVertexAngle (polygonVertices l) (vertexIndex l) > 180 - minVertexAngle s"
    if "l \<in> set (labels (setLabels s v fmt polyId vertices m))" and "polygonId l = polyId" for l
    using setLabels_sharp [of s v fmt polyId vertices m] that by (auto simp: sharpEnough_def)
  have u': "calculateVertexAngle (polygonVertices l) (vertexIndex l) \<noteq> 180"
    if "180 - minVertexAngle s < 180" and "l \<in> set (labels (updateAllLabels s v fmt polygons m))"
    for l
    using u [OF that(2)] that(1) by auto
  have t': "calculateVertexAngle (polygonVertices l) (vertexIndex l) \<noteq> 180"
    if "180 - minVertexAngle s < 180" and "l \<in> set (labels (setLabels s v fmt polyId vertices m))"
      and "polygonId l = polyId" for l
    using t [OF that(2,3)] that(1) by auto
  from zero_edge_angle u t u' t' show ?thesis by blast
qed

theorem straight_vertex_unlabelled_witness:
  "1 < length doubledRing \<and> zeroEdgeAt doubledRing 1 \<and>
   180 - minVertexAngle defaultSettings < 180 \<and>
   calculateVertexAngle doubledRing 1 = 180 \<and>
   \<not> (\<exists>l \<in> set (labels (updateAllLabels defaultSettings closeView demoFmt [doubledPolygon]
                          emptyManager)).
        polygonVertices l = doubledRing \<and> vertexIndex l = 1) \<and>
   \<not> (\<exists>l \<in> set (labels (setLabels defaultSettings closeView demoFmt 10 doubledRing emptyManager)).
        polygonId l = 10 \<and> polygonVertices l = doubledRing \<and> vertexIndex l = 1)"
proof -
  have pos: "180 - minVertexAngle defaultSettings < 180" by (simp add: defaultSettings_def)
  have z: "1 < length doubledRing \<and> zeroEdgeAt doubledRing 1"
    by (simp add: zeroEdgeAt_def doubledRing_def Let_def)
  from straight_vertex_unlabelled
    [of defaultSettings closeView demoFmt "[doubledPolygon]" emptyManager 10 doubledRing]
    pos z
  show ?thesis by auto
qed

lemma straightRing_1: "straightAt straightRing 1"
proof -
  have "\<exists>c > (0::real). 2 / 10 - 5 / 10 = - c * (8 / 10 - 5 / 10)"
    by (rule exI [of _ 1]) simp
  then show ?thesis
    by (simp add: straightAt_def straightRing_def Let_def)
qed

lemma upt5: "[0..<5] = [0, 1, 2, 3, 4]"
  by (simp add: upt_rec)

text \<open>
  With \<^verbatim>\<open>minVertexAngle\<close> at 0 the test \<^verbatim>\<open>angle > 180 - minVertexAngle\<close> lets the angle 180
  pass, and the straight vertex gets its label.
\<close>

theorem straight_vertex_counterexample:
  "straightAt straightRing 1 \<and>
   0 \<le> minVertexAngle (defaultSettings\<lparr>minVertexAngle := 0\<rparr>) \<and>
   (\<exists>l \<in> set (labels (updateAllLabels (defaultSettings\<lparr>minVertexAngle := 0\<rparr>) closeView demoFmt
                         [straightPolygon] emptyManager)).
      polygonVertices l = straightRing \<and> vertexIndex l = 1)"
proof -
  let ?s = "defaultSettings\<lparr>minVertexAngle := 0\<rparr>"
  have a: "calculateVertexAngle straightRing 1 = 180"
    using straightRing_1 by (rule straight_angle)
  then have a': "calculateVertexAngle straightRing (Suc 0) = 180" by simp
  have ne: "straightRing \<noteq> []" by (simp add: straightRing_def)
  have vis: "visibleVertices closeView straightRing = [\<lparr>lat = 0, lon = 5 / 10\<rparr>]"
    by (simp add: visibleVertices_def straightRing_def boundsContains_def closeView_def)
  have len: "length straightRing = 5" by (simp add: straightRing_def)
  have z: "zip straightRing [0..<5] =
      [(\<lparr>lat = 0, lon = 2 / 10\<rparr>, 0), (\<lparr>lat = 0, lon = 5 / 10\<rparr>, 1), (\<lparr>lat = 0, lon = 8 / 10\<rparr>, 2),
       (\<lparr>lat = 3 / 10, lon = 8 / 10\<rparr>, 3), (\<lparr>lat = 3 / 10, lon = 2 / 10\<rparr>, 4)]"
    by (simp add: straightRing_def upt5)
  have sel: "south closeView = - (1 / 10)" "north closeView = 1 / 10"
      "west closeView = 4 / 10" "east closeView = 6 / 10"
    by (simp_all add: closeView_def)
  have "labels (updateAllLabels ?s closeView demoFmt [straightPolygon] emptyManager) =
      [updateLabel ?s closeView demoFmt
         (savedPositionsOf (manuallyPositionedKeys emptyManager) (labels emptyManager))
         straightPolygon \<lparr>lat = 0, lon = 5 / 10\<rparr> \<lparr>lat = 0, lon = 5 / 10\<rparr> 1]"
    unfolding updateAllLabels_labels
    by (simp add: updatePolygon_def straightPolygon_def vis len z updateVertex_def
        placeVertex_def boundsContains_def sel a' ne centroid_def defaultSettings_def)
  then show ?thesis
    using straightRing_1 by (simp add: straightPolygon_def defaultSettings_def)
qed

subsection \<open>Rings of fewer than three points\<close>

lemma foldl_skip_one:
  assumes "\<And>st. f st p = st"
  shows "foldl f a (ps @ p # qs) = foldl f a (ps @ qs)"
  by (simp add: assms)

lemma onePoint_zeroEdge: "length ring = 1 \<Longrightarrow> zeroEdgeAt ring 0"
  by (simp add: zeroEdgeAt_def Let_def)

lemma updatePolygon_empty: "phull p = [] \<Longrightarrow> updatePolygon s v fmt saved st p = st"
  by (simp add: updatePolygon_def)

lemma updatePolygon_onePoint:
  assumes "length (phull p) = 1" and "180 - minVertexAngle s < 180"
  shows "updatePolygon s v fmt saved st p = st"
proof -
  from assms(1) obtain c where h: "phull p = [c]"
    by (cases "phull p") simp_all
  have "calculateVertexAngle (phull p) 0 = 180"
    using assms(1) by (intro zero_edge_angle onePoint_zeroEdge)
  then have "180 - minVertexAngle s < calculateVertexAngle [c] 0"
    using assms(2) h by simp
  then show ?thesis
    by (simp add: updatePolygon_def h updateVertex_def placeVertex_skip)
qed

lemma updateAllLabels_skip:
  assumes "\<And>saved st. updatePolygon s v fmt saved st p = st"
  shows "labels (updateAllLabels s v fmt (ps @ p # qs) m) =
         labels (updateAllLabels s v fmt (ps @ qs) m)"
  unfolding updateAllLabels_labels by (simp add: assms)

lemma setLabels_onePoint:
  assumes "length vertices = 1" and "180 - minVertexAngle s < 180"
  shows "labels (setLabels s v fmt polyId vertices m) =
         filter (\<lambda>l. polygonId l \<noteq> polyId) (labels m)"
proof -
  from assms(1) obtain c where h: "vertices = [c]"
    by (cases vertices) simp_all
  have "calculateVertexAngle vertices 0 = 180"
    using assms(1) by (intro zero_edge_angle onePoint_zeroEdge)
  then have "180 - minVertexAngle s < calculateVertexAngle [c] 0"
    using assms(2) h by simp
  then show ?thesis
    by (simp add: setLabels_labels h setLabelsVertex_def placeVertex_skip)
qed

lemma addPolygonData_hulls:
  assumes "\<forall>e \<in> set pd. 3 \<le> length (phull (snd e))"
  shows "\<forall>e \<in> set (addPolygonData polyId h nm pd). 3 \<le> length (phull (snd e))"
  using assms by (auto simp: addPolygonData_def Let_def)

text \<open>
  Claim C5, as amended. A polygon whose ring is empty contributes nothing to
  \<^verbatim>\<open>updateAllLabels\<close>, and \<^verbatim>\<open>setLabels\<close> with an empty ring only removes the labels of the
  polygon. The same holds for a ring of one point whenever the difference
  \<^verbatim>\<open>180 - minVertexAngle\<close> that the angle filter computes is below 180: the angle of the
  point is the 180 of the degenerate branch, and the filter drops it. The two entry points
  have no test for rings of one or two points: it is \<^verbatim>\<open>addPolygon\<close> of the map manager that
  keeps hulls of fewer than three points out of \<^verbatim>\<open>polygonData\<close>.
\<close>

theorem small_rings:
  "(phull p = [] \<or> (length (phull p) = 1 \<and> 180 - minVertexAngle s < 180) \<longrightarrow>
      labels (updateAllLabels s v fmt (ps @ p # qs) m) =
      labels (updateAllLabels s v fmt (ps @ qs) m)) \<and>
   (vertices = [] \<or> (length vertices = 1 \<and> 180 - minVertexAngle s < 180) \<longrightarrow>
      labels (setLabels s v fmt polyId vertices m) =
      filter (\<lambda>l. polygonId l \<noteq> polyId) (labels m)) \<and>
   ((\<forall>e \<in> set pd. 3 \<le> length (phull (snd e))) \<longrightarrow>
      (\<forall>e \<in> set (addPolygonData polyId h nm pd). 3 \<le> length (phull (snd e))))"
proof (intro conjI impI)
  assume "phull p = [] \<or> (length (phull p) = 1 \<and> 180 - minVertexAngle s < 180)"
  then have "updatePolygon s v fmt saved st p = st" for saved st
    using updatePolygon_empty [of p s v fmt saved st]
      updatePolygon_onePoint [of p s v fmt saved st] by blast
  then show "labels (updateAllLabels s v fmt (ps @ p # qs) m) =
      labels (updateAllLabels s v fmt (ps @ qs) m)"
    by (rule updateAllLabels_skip)
next
  assume "vertices = [] \<or> (length vertices = 1 \<and> 180 - minVertexAngle s < 180)"
  then show "labels (setLabels s v fmt polyId vertices m) =
      filter (\<lambda>l. polygonId l \<noteq> polyId) (labels m)"
    using setLabels_onePoint [of vertices s v fmt polyId m]
    by (auto simp: setLabels_labels)
next
  assume "\<forall>e \<in> set pd. 3 \<le> length (phull (snd e))"
  then show "\<forall>e \<in> set (addPolygonData polyId h nm pd). 3 \<le> length (phull (snd e))"
    by (rule addPolygonData_hulls)
qed

theorem small_rings_witness:
  "labels (updateAllLabels defaultSettings closeView demoFmt [emptyPolygon, straightPolygon]
             emptyManager) =
   labels (updateAllLabels defaultSettings closeView demoFmt [straightPolygon] emptyManager) \<and>
   labels (updateAllLabels defaultSettings closeView demoFmt [onePointPolygon, straightPolygon]
             emptyManager) =
   labels (updateAllLabels defaultSettings closeView demoFmt [straightPolygon] emptyManager) \<and>
   labels (setLabels defaultSettings closeView demoFmt 6 [] demoManager) = [demoLabel] \<and>
   labels (setLabels defaultSettings closeView demoFmt 7 [\<lparr>lat = 0, lon = 1 / 2\<rparr>] demoManager)
     = [demoLabel] \<and>
   addPolygonData 5 (phull twoPointPolygon) ''track''
     [(4, straightPolygon)] = [(4, straightPolygon)]"
proof -
  have e: "phull emptyPolygon = [] \<or>
      (length (phull emptyPolygon) = 1 \<and> 180 - minVertexAngle defaultSettings < 180)"
    by (simp add: emptyPolygon_def)
  have o: "phull onePointPolygon = [] \<or>
      (length (phull onePointPolygon) = 1 \<and> 180 - minVertexAngle defaultSettings < 180)"
    by (simp add: onePointPolygon_def defaultSettings_def)
  have se: "([]::coord list) = [] \<or>
      (length ([]::coord list) = 1 \<and> 180 - minVertexAngle defaultSettings < 180)" by simp
  have so: "[\<lparr>lat = 0, lon = 1 / 2\<rparr>] = ([]::coord list) \<or>
      (length [\<lparr>lat = 0::real, lon = 1 / 2\<rparr>] = 1 \<and> 180 - minVertexAngle defaultSettings < 180)"
    by (simp add: defaultSettings_def)
  have pd: "\<forall>e \<in> set [(4::nat, straightPolygon)]. 3 \<le> length (phull (snd e))"
    by (simp add: straightPolygon_def straightRing_def)
  have f: "filter (\<lambda>l. polygonId l \<noteq> n) (labels demoManager) = [demoLabel]" if "n \<noteq> 1" for n
    using that by (simp add: demoManager_def demoLabel_def)
  note t1 = small_rings [where p = emptyPolygon and s = defaultSettings and v = closeView
      and fmt = demoFmt and ps = "[]" and qs = "[straightPolygon]" and m = emptyManager
      and vertices = "[]" and polyId = 6 and pd = "[(4, straightPolygon)]"
      and h = "phull twoPointPolygon" and nm = "''track''"]
  note t2 = small_rings [where p = onePointPolygon and s = defaultSettings and v = closeView
      and fmt = demoFmt and ps = "[]" and qs = "[straightPolygon]" and m = emptyManager
      and vertices = "[\<lparr>lat = 0, lon = 1 / 2\<rparr>]" and polyId = 7]
  note t3 = small_rings [where s = defaultSettings and v = closeView
      and fmt = demoFmt and m = demoManager and vertices = "[]" and polyId = 6]
  note t4 = small_rings [where s = defaultSettings and v = closeView
      and fmt = demoFmt and m = demoManager
      and vertices = "[\<lparr>lat = 0, lon = 1 / 2\<rparr>]" and polyId = 7]
  from t1 e have "labels (updateAllLabels defaultSettings closeView demoFmt
      ([] @ emptyPolygon # [straightPolygon]) emptyManager) =
      labels (updateAllLabels defaultSettings closeView demoFmt ([] @ [straightPolygon])
        emptyManager)" by blast
  then have a1: "labels (updateAllLabels defaultSettings closeView demoFmt
      [emptyPolygon, straightPolygon] emptyManager) =
      labels (updateAllLabels defaultSettings closeView demoFmt [straightPolygon] emptyManager)"
    by simp
  from t2 o have "labels (updateAllLabels defaultSettings closeView demoFmt
      ([] @ onePointPolygon # [straightPolygon]) emptyManager) =
      labels (updateAllLabels defaultSettings closeView demoFmt ([] @ [straightPolygon])
        emptyManager)" by blast
  then have a2: "labels (updateAllLabels defaultSettings closeView demoFmt
      [onePointPolygon, straightPolygon] emptyManager) =
      labels (updateAllLabels defaultSettings closeView demoFmt [straightPolygon] emptyManager)"
    by simp
  have a3: "labels (setLabels defaultSettings closeView demoFmt 6 [] demoManager) = [demoLabel]"
    using t3 se f [of 6] by auto
  have a4: "labels (setLabels defaultSettings closeView demoFmt 7 [\<lparr>lat = 0, lon = 1 / 2\<rparr>]
      demoManager) = [demoLabel]"
    using t4 so f [of 7] by auto
  have a5: "addPolygonData 5 (phull twoPointPolygon) ''track'' [(4, straightPolygon)]
      = [(4, straightPolygon)]"
    by (simp add: addPolygonData_def twoPointPolygon_def)
  from a1 a2 a3 a4 a5 show ?thesis by blast
qed

lemma upt2: "[0..<2] = [0, 1]"
  by (simp add: upt_rec)

text \<open>
  A ring of two points passed to either entry point gets a label, which carries the
  ring into the solver.
\<close>

theorem small_rings_counterexample:
  "length (phull twoPointPolygon) < 3 \<and>
   (\<exists>l \<in> set (labels (updateAllLabels defaultSettings closeView demoFmt [twoPointPolygon]
                         emptyManager)).
      polygonId l = pid twoPointPolygon \<and> polygonVertices l = phull twoPointPolygon) \<and>
   (\<exists>l \<in> set (labels (setLabels defaultSettings closeView demoFmt 5 (phull twoPointPolygon)
                         emptyManager)).
      polygonId l = 5 \<and> polygonVertices l = phull twoPointPolygon)"
proof -
  let ?ring = "[\<lparr>lat = 0, lon = 1 / 2\<rparr>, \<lparr>lat = 0, lon = 4 / 5\<rparr>] :: coord list"
  have a: "calculateVertexAngle ?ring 0 = 0"
    by (simp add: calculateVertexAngle_def Let_def)
  have vis: "visibleVertices closeView ?ring = [\<lparr>lat = 0, lon = 1 / 2\<rparr>]"
    by (simp add: visibleVertices_def boundsContains_def closeView_def)
  have sel: "south closeView = - (1 / 10)" "north closeView = 1 / 10"
      "west closeView = 4 / 10" "east closeView = 6 / 10"
    by (simp_all add: closeView_def)
  have u: "labels (updateAllLabels defaultSettings closeView demoFmt [twoPointPolygon] emptyManager) =
      [updateLabel defaultSettings closeView demoFmt
         (savedPositionsOf (manuallyPositionedKeys emptyManager) (labels emptyManager))
         twoPointPolygon \<lparr>lat = 0, lon = 1 / 2\<rparr> \<lparr>lat = 0, lon = 1 / 2\<rparr> 0]"
    unfolding updateAllLabels_labels
    by (simp add: updatePolygon_def twoPointPolygon_def vis upt2 updateVertex_def
        placeVertex_def boundsContains_def sel a centroid_def defaultSettings_def)
  have st: "labels (setLabels defaultSettings closeView demoFmt 5 (phull twoPointPolygon) emptyManager) =
      [setLabelsLabel defaultSettings closeView demoFmt 5 ?ring
         \<lparr>lat = 0, lon = 1 / 2\<rparr> \<lparr>lat = 0, lon = 1 / 2\<rparr> 0]"
    unfolding setLabels_labels
    by (simp add: twoPointPolygon_def vis upt2 setLabelsVertex_def emptyManager_def
        placeVertex_def boundsContains_def sel a centroid_def defaultSettings_def)
  show ?thesis
    unfolding u st by (simp add: twoPointPolygon_def)
qed

subsection \<open>Two close vertices\<close>


























subsection \<open>The run of the scheduler\<close>

lemma simulateStep_other_fields:
  "frames (fst (simulateStep s v m)) = frames m"
  "isSimulating (fst (simulateStep s v m)) = isSimulating m"
  "showDebugFields (fst (simulateStep s v m)) = showDebugFields m"
  "nameRefreshes (fst (simulateStep s v m)) = nameRefreshes m"
  "debugRefreshes (fst (simulateStep s v m)) = debugRefreshes m"
  "stepCalls (fst (simulateStep s v m)) = stepCalls m"
  "simulationInterval (fst (simulateStep s v m)) = simulationInterval m"
  by (simp_all add: simulateStep_def Let_def split: prod.splits)

lemma stepsLoop_fields:
  "stepsLoop n s v (m, cnt, e) = (m', cnt', e') \<Longrightarrow>
   frames m' = frames m \<and> isSimulating m' = isSimulating m \<and>
   showDebugFields m' = showDebugFields m \<and> nameRefreshes m' = nameRefreshes m \<and>
   debugRefreshes m' = debugRefreshes m \<and> stepCalls m' = stepCalls m + (cnt' - cnt) \<and>
   cnt \<le> cnt' \<and> cnt' \<le> cnt + n \<and> (cnt' = cnt + n \<or> iterations s \<le> real cnt') \<and>
   (0 < n \<and> real cnt < iterations s \<longrightarrow> cnt < cnt')"
proof (induction n arbitrary: m cnt e)
  case 0
  then show ?case by simp
next
  case (Suc n)
  show ?case
  proof (cases "real cnt < iterations s")
    case False
    with Suc.prems show ?thesis by simp
  next
    case True
    obtain m1 en where st: "simulateStep s v m = (m1, en)"
      by (cases "simulateStep s v m")
    let ?m2 = "m1\<lparr>stepCalls := Suc (stepCalls m1)\<rparr>"
    from Suc.prems True st
    have "stepsLoop n s v (?m2, Suc cnt, e + en) = (m', cnt', e')" by simp
    from Suc.IH [OF this] simulateStep_other_fields [of s v m] st
    show ?thesis by auto
  qed
qed

lemma fireFrame_idle: "frames w = [] \<Longrightarrow> fireFrame s v w = w"
  by (simp add: fireFrame_def)

lemma fireFrame_halt:
  assumes "frames w = [r]" and "\<not> continues s r"
  shows "frames (fireFrame s v w) = [] \<and> \<not> isSimulating (fireFrame s v w)"
  using assms by (simp add: fireFrame_def animate_def Let_def)

lemma fireFrame_halt_callbacks:
  assumes "frames w = [r]" and "\<not> continues s r"
  shows "nameRefreshes (fireFrame s v w) =
           (if polygonsForNames r \<noteq> None then Suc (nameRefreshes w) else nameRefreshes w) \<and>
         debugRefreshes (fireFrame s v w) =
           (if showDebugFields w then Suc (debugRefreshes w) else debugRefreshes w) \<and>
         stepCalls (fireFrame s v w) = stepCalls w \<and>
         showDebugFields (fireFrame s v w) = showDebugFields w"
  using assms by (simp add: fireFrame_def animate_def Let_def)

lemma fireFrame_batch:
  assumes "frames w = [r]" and "continues s r"
  shows "\<exists>r' avgEnergy. frames (fireFrame s v w) = [r'] \<and>
      iterationCount r < iterationCount r' \<and>
      iterationCount r' \<le> iterationCount r + stepsPerFrame \<and>
      polygonsForNames r' = polygonsForNames r \<and>
      nameRefreshes (fireFrame s v w) = nameRefreshes w \<and>
      debugRefreshes (fireFrame s v w) = debugRefreshes w \<and>
      showDebugFields (fireFrame s v w) = showDebugFields w \<and>
      (iterationCount r' = iterationCount r + stepsPerFrame \<or>
       iterations s \<le> real (iterationCount r')) \<and>
      previousEnergy r' = Some avgEnergy \<and>
      stableCount r' = (if isStable avgEnergy (previousEnergy r) then Suc (stableCount r) else 0) \<and>
      stepCalls (fireFrame s v w) = stepCalls w + (iterationCount r' - iterationCount r)"
proof -
  obtain m' cnt' e' where sl:
    "stepsLoop stepsPerFrame s v (w\<lparr>frames := []\<rparr>, iterationCount r, 0) = (m', cnt', e')"
    by (cases "stepsLoop stepsPerFrame s v (w\<lparr>frames := []\<rparr>, iterationCount r, 0)") auto
  from stepsLoop_fields [OF sl] assms(2)
  have f: "frames m' = []" and sc: "stepCalls m' = stepCalls w + (cnt' - iterationCount r)"
    and c: "iterationCount r < cnt'" "cnt' \<le> iterationCount r + stepsPerFrame"
      "cnt' = iterationCount r + stepsPerFrame \<or> iterations s \<le> real cnt'"
    and o: "nameRefreshes m' = nameRefreshes w" "debugRefreshes m' = debugRefreshes w"
      "showDebugFields m' = showDebugFields w"
    by (simp_all add: continues_def stepsPerFrame_def)
  show ?thesis
    using assms sl f sc c o
    by (simp add: fireFrame_def animate_def Let_def)
qed

lemma runTicks_Suc: "runTicks s v pfn m (Suc k) = fireFrame s v (runTicks s v pfn m k)"
  by (simp add: runTicks_def)

lemma runTicks_0:
  "\<not> isSimulating m \<Longrightarrow> frames m = [] \<Longrightarrow>
   frames (runTicks s v pfn m 0) =
     [\<lparr>iterationCount = 0, previousEnergy = None, stableCount = 0, polygonsForNames = pfn\<rparr>]"
  by (simp add: runTicks_def startSimulation_def)

lemma runTicks_shape:
  assumes "\<not> isSimulating m" and "frames m = []"
  shows "(frames (runTicks s v pfn m k) = [] \<and> \<not> isSimulating (runTicks s v pfn m k)) \<or>
         (\<exists>r. frames (runTicks s v pfn m k) = [r] \<and>
              (iterationCount r = stepsPerFrame * k \<or> iterations s \<le> real (iterationCount r)))"
proof (induction k)
  case 0
  then show ?case using runTicks_0 [OF assms, of s v pfn] by simp
next
  case (Suc k)
  let ?w = "runTicks s v pfn m k"
  from Suc.IH show ?case
  proof
    assume "frames ?w = [] \<and> \<not> isSimulating ?w"
    then show ?thesis by (simp add: runTicks_Suc fireFrame_idle)
  next
    assume "\<exists>r. frames ?w = [r] \<and>
              (iterationCount r = stepsPerFrame * k \<or> iterations s \<le> real (iterationCount r))"
    then obtain r where r: "frames ?w = [r]"
      and cnt: "iterationCount r = stepsPerFrame * k \<or> iterations s \<le> real (iterationCount r)"
      by blast
    show ?thesis
    proof (cases "continues s r")
      case False
      from fireFrame_halt [OF r False, of v] show ?thesis by (simp add: runTicks_Suc)
    next
      case True
      then have "iterationCount r = stepsPerFrame * k" using cnt by (simp add: continues_def)
      with fireFrame_batch [OF r True, of v] show ?thesis
        by (auto simp: runTicks_Suc)
    qed
  qed
qed

lemma budget_used:
  fixes x :: real
  shows "x \<le> real (stepsPerFrame * nat \<lceil>x / real stepsPerFrame\<rceil>)"
proof -
  have "x / 3 \<le> real_of_int \<lceil>x / 3\<rceil>" by (rule le_of_int_ceiling)
  also have "\<dots> \<le> real (nat \<lceil>x / 3\<rceil>)" by simp
  finally show ?thesis by (simp add: stepsPerFrame_def)
qed

lemma runTicks_bound:
  assumes "\<not> isSimulating m" and "frames m = []"
  shows "(\<forall>r. frames (runTicks s v pfn m (nat \<lceil>iterations s / real stepsPerFrame\<rceil>)) = [r]
             \<longrightarrow> \<not> continues s r) \<and>
         frames (runTicks s v pfn m (Suc (nat \<lceil>iterations s / real stepsPerFrame\<rceil>))) = [] \<and>
         \<not> isSimulating (runTicks s v pfn m (Suc (nat \<lceil>iterations s / real stepsPerFrame\<rceil>)))"
proof -
  let ?K = "nat \<lceil>iterations s / real stepsPerFrame\<rceil>"
  let ?w = "runTicks s v pfn m ?K"
  have used: "\<not> continues s r" if "frames ?w = [r]" for r
  proof -
    from runTicks_shape [OF assms, of s v pfn ?K] that
    have "iterationCount r = stepsPerFrame * ?K \<or> iterations s \<le> real (iterationCount r)"
      by auto
    with budget_used [of "iterations s"] have "iterations s \<le> real (iterationCount r)"
      by auto
    then show ?thesis by (simp add: continues_def)
  qed
  from runTicks_shape [OF assms, of s v pfn ?K]
  have "frames (fireFrame s v ?w) = [] \<and> \<not> isSimulating (fireFrame s v ?w)"
  proof
    assume "frames ?w = [] \<and> \<not> isSimulating ?w"
    then show ?thesis by (simp add: fireFrame_idle)
  next
    assume "\<exists>r. frames ?w = [r] \<and>
        (iterationCount r = stepsPerFrame * ?K \<or> iterations s \<le> real (iterationCount r))"
    then obtain r where r: "frames ?w = [r]" by blast
    from fireFrame_halt [OF r used [OF r]] show ?thesis .
  qed
  with used show ?thesis by (simp add: runTicks_Suc)
qed


text \<open>
  What one callback does, with the average of its batch told from the steps.
\<close>

lemma samePhysics_refl [simp]: "samePhysics a a"
  by (simp add: samePhysics_def)

lemma samePhysics_sym: "samePhysics a b \<Longrightarrow> samePhysics b a"
  by (simp add: samePhysics_def)



lemma stepsFrom_0 [simp]: "stepsFrom s v 0 w = w"
  by (simp add: stepsFrom_def)



































subsection \<open>Stopping a run\<close>

lemma stopSimulation_fields:
  "frames (stopSimulation w) = frames w"
  "isSimulating (stopSimulation w) = False"
  "stepCalls (stopSimulation w) = stepCalls w"
  "nameRefreshes (stopSimulation w) = nameRefreshes w"
  "debugRefreshes (stopSimulation w) = debugRefreshes w"
  "showDebugFields (stopSimulation w) = showDebugFields w"
  "labels (stopSimulation w) = labels w"
  by (simp_all add: stopSimulation_def Let_def)

lemma simulateStep_stop:
  "simulateStep s v (stopSimulation m) =
     (stopSimulation (fst (simulateStep s v m)), snd (simulateStep s v m))"
  by (simp add: simulateStep_def stopSimulation_def Let_def split: prod.splits)

lemma stepsLoop_stop:
  "stepsLoop n s v (stopSimulation m, cnt, e) =
     (case stepsLoop n s v (m, cnt, e) of (m', cnt', e') \<Rightarrow> (stopSimulation m', cnt', e'))"
proof (induction n arbitrary: m cnt e)
  case 0
  then show ?case by simp
next
  case (Suc n)
  obtain m1 en where st: "simulateStep s v m = (m1, en)"
    by (cases "simulateStep s v m")
  have c: "(stopSimulation m1)\<lparr>stepCalls := Suc (stepCalls (stopSimulation m1))\<rparr> =
           stopSimulation (m1\<lparr>stepCalls := Suc (stepCalls m1)\<rparr>)"
    by (simp add: stopSimulation_def Let_def)
  show ?case
    using st Suc.IH [of "m1\<lparr>stepCalls := Suc (stepCalls m1)\<rparr>" "Suc cnt" "e + en"]
    by (simp add: simulateStep_stop c)
qed

lemma animate_stop:
  "animate s v r (stopSimulation m) = stopSimulation (animate s v r m)"
proof (cases "continues s r")
  case True
  obtain m' cnt' e' where sl: "stepsLoop stepsPerFrame s v (m, iterationCount r, 0) = (m', cnt', e')"
    by (cases "stepsLoop stepsPerFrame s v (m, iterationCount r, 0)") auto
  have "(stopSimulation m')\<lparr>frames := frames (stopSimulation m') @ [x]\<rparr> =
        stopSimulation (m'\<lparr>frames := frames m' @ [x]\<rparr>)" for x
    by (simp add: stopSimulation_def Let_def)
  with True sl show ?thesis
    by (simp add: animate_def Let_def stepsLoop_stop)
next
  case False
  then show ?thesis
    by (simp add: animate_def stopSimulation_def Let_def)
qed

lemma fireFrame_stop:
  "fireFrame s v (stopSimulation w) = stopSimulation (fireFrame s v w)"
proof (cases "frames w")
  case Nil
  then show ?thesis by (simp add: fireFrame_def stopSimulation_fields)
next
  case (Cons r rest)
  have "(stopSimulation w)\<lparr>frames := rest\<rparr> = stopSimulation (w\<lparr>frames := rest\<rparr>)"
    by (simp add: stopSimulation_def Let_def)
  with Cons show ?thesis
    by (simp add: fireFrame_def stopSimulation_fields animate_stop)
qed

text \<open>
  \<^verbatim>\<open>stopSimulation\<close> commutes with the animation frames: what the registered callback does
  does not depend on the flag that \<^verbatim>\<open>stopSimulation\<close> lowers.
\<close>

lemma frames_after_stop:
  "(fireFrame s v ^^ k) (stopSimulation w) = stopSimulation ((fireFrame s v ^^ k) w)"
  by (induction k) (simp_all add: fireFrame_stop)

lemma runTicks_names:
  assumes "\<not> isSimulating m" and "frames m = []"
  shows "(frames (runTicks s v pfn m k) = [] \<and>
          nameRefreshes (runTicks s v pfn m k) =
            (if pfn \<noteq> None then Suc (nameRefreshes m) else nameRefreshes m)) \<or>
         (\<exists>r. frames (runTicks s v pfn m k) = [r] \<and> polygonsForNames r = pfn \<and>
              nameRefreshes (runTicks s v pfn m k) = nameRefreshes m)"
proof (induction k)
  case 0
  have "nameRefreshes (runTicks s v pfn m 0) = nameRefreshes m"
    by (simp add: runTicks_def startSimulation_def)
  then show ?case using runTicks_0 [OF assms, of s v pfn] by simp
next
  case (Suc k)
  let ?w = "runTicks s v pfn m k"
  from Suc.IH show ?case
  proof
    assume "frames ?w = [] \<and> nameRefreshes ?w =
            (if pfn \<noteq> None then Suc (nameRefreshes m) else nameRefreshes m)"
    then show ?thesis by (simp add: runTicks_Suc fireFrame_idle)
  next
    assume "\<exists>r. frames ?w = [r] \<and> polygonsForNames r = pfn \<and> nameRefreshes ?w = nameRefreshes m"
    then obtain r where r: "frames ?w = [r]" and p: "polygonsForNames r = pfn"
      and n: "nameRefreshes ?w = nameRefreshes m" by blast
    show ?thesis
    proof (cases "continues s r")
      case False
      from fireFrame_halt [OF r False, of v] fireFrame_halt_callbacks [OF r False, of v] p n
      show ?thesis by (cases pfn) (auto simp: runTicks_Suc)
    next
      case True
      from fireFrame_batch [OF r True, of v] p n show ?thesis
        by (auto simp: runTicks_Suc)
    qed
  qed
qed

text \<open>
  Claim C3 asks that after \<^verbatim>\<open>stopSimulation()\<close> on a running simulation no further step is
  run and no completion callback is called by the interrupted run. The code does not do
  so: \<^verbatim>\<open>animate\<close> never reads \<^verbatim>\<open>isSimulating\<close>, and the callback registered with
  \<^verbatim>\<open>requestAnimationFrame\<close> is not cancelled. On a run started for one label, the frame
  after the stop calls \<^verbatim>\<open>simulateStep\<close> three times and registers the callback again, and
  68 frames after the stop the names of the polygons have been placed anew.
\<close>

theorem stop_does_not_halt:
  "isSimulating (startSimulation (Some [demoTriangle]) restManager) \<and>
   \<not> isSimulating (stopSimulation (startSimulation (Some [demoTriangle]) restManager)) \<and>
   stepCalls (stopSimulation (startSimulation (Some [demoTriangle]) restManager)) = 0 \<and>
   stepCalls (fireFrame defaultSettings edgeView
     (stopSimulation (startSimulation (Some [demoTriangle]) restManager))) = 3 \<and>
   frames (fireFrame defaultSettings edgeView
     (stopSimulation (startSimulation (Some [demoTriangle]) restManager))) \<noteq> [] \<and>
   nameRefreshes (stopSimulation (startSimulation (Some [demoTriangle]) restManager)) = 0 \<and>
   nameRefreshes ((fireFrame defaultSettings edgeView ^^ 68)
     (stopSimulation (startSimulation (Some [demoTriangle]) restManager))) = 1"
proof -
  let ?w = "startSimulation (Some [demoTriangle]) restManager"
  let ?r0 = "\<lparr>iterationCount = 0, previousEnergy = None, stableCount = 0,
              polygonsForNames = Some [demoTriangle]\<rparr>"
  have i: "\<not> isSimulating restManager" and f: "frames restManager = []"
    by (simp_all add: restManager_def)
  have w0: "frames ?w = [?r0]" "isSimulating ?w" "stepCalls ?w = 0" "nameRefreshes ?w = 0"
    by (simp_all add: startSimulation_def restManager_def)
  have c: "continues defaultSettings ?r0"
    by (simp add: continues_def defaultSettings_def stableThreshold_def)
  from fireFrame_batch [OF w0(1) c, of edgeView]
  obtain r' where b: "frames (fireFrame defaultSettings edgeView ?w) = [r']"
    and le: "iterationCount r' \<le> stepsPerFrame"
    and eq: "iterationCount r' = stepsPerFrame \<or> iterations defaultSettings \<le> real (iterationCount r')"
    and sc: "stepCalls (fireFrame defaultSettings edgeView ?w) = stepCalls ?w + iterationCount r'"
    by auto
  from le eq have "iterationCount r' = 3"
    by (auto simp: stepsPerFrame_def defaultSettings_def)
  with sc w0 have s3: "stepCalls (fireFrame defaultSettings edgeView ?w) = 3" by simp
  have K: "Suc (nat \<lceil>iterations defaultSettings / real stepsPerFrame\<rceil>) = 68"
    by (simp add: defaultSettings_def stepsPerFrame_def)
  from runTicks_bound [OF i f, of defaultSettings edgeView "Some [demoTriangle]"]
  have e: "frames (runTicks defaultSettings edgeView (Some [demoTriangle]) restManager 68) = []"
    unfolding K by simp
  from runTicks_names [OF i f, of defaultSettings edgeView "Some [demoTriangle]" 68] e
  have "nameRefreshes (runTicks defaultSettings edgeView (Some [demoTriangle]) restManager 68) = 1"
    by (simp add: restManager_def)
  then have n: "nameRefreshes ((fireFrame defaultSettings edgeView ^^ 68) ?w) = 1"
    by (simp add: runTicks_def)
  show ?thesis
    using w0 s3 b n
    by (simp add: fireFrame_stop frames_after_stop stopSimulation_fields)
qed

subsection \<open>Two labels at one position\<close>

text \<open>
  The collision force of two labels at one position.
\<close>

lemma pairRepulsion_coincident:
  assumes "labelLatLng b = labelLatLng a"
    and "0 \<le> width a" "0 \<le> height a" "0 \<le> width b" "0 \<le> height b" and "0 < k"
  shows "pairRepulsion s k a b = Some (coincidentNudge s k a b)"
proof -
  have nn: "0 \<le> pixelsToDegrees k x" if "0 \<le> x" for x
    using that assms(6) by (simp add: pixelsToDegrees_def)
  have w: "0 \<le> pixelsToDegrees k (width a)" "0 \<le> pixelsToDegrees k (width b)"
      "0 \<le> pixelsToDegrees k (height a)" "0 \<le> pixelsToDegrees k (height b)"
      "0 \<le> pixelsToDegrees k 5"
    using assms by (simp_all add: nn)
  have ov: "\<not> (bRight (labelBox k 5 a) < bLeft (labelBox k 5 b) \<or>
               bLeft (labelBox k 5 a) > bRight (labelBox k 5 b) \<or>
               bTop (labelBox k 5 a) < bBottom (labelBox k 5 b) \<or>
               bBottom (labelBox k 5 a) > bTop (labelBox k 5 b))"
    using w assms(1) by (simp add: labelBox_def Let_def)
  show ?thesis
    unfolding pairRepulsion_def Let_def coincidentNudge_def
    using ov assms(1) by (simp add: Let_def)
qed



text \<open>
  The forces of two twins, written out: both get the same push from the vertices, from
  their own spring and centre and from each other's leader line, and the collision force
  with opposite signs.
\<close>

lemma pushBy_zero [simp]: "pushBy 0 0 g = g"
  by (simp add: pushBy_def)

lemma pushBy_pushBy: "pushBy x y (pushBy x' y' g) = pushBy (x + x') (y + y') g"
  by (simp add: pushBy_def)

lemma lon_pushBy [simp]: "lon (pushBy x y g) = lon g + x"
  and lat_pushBy [simp]: "lat (pushBy x y g) = lat g + y"
  by (simp_all add: pushBy_def)

lemma ownShift_push:
  "centerRepulsion s k l (springForce s l g) = pushBy (lon (ownShift s k l)) (lat (ownShift s k l)) g"
  by (simp add: ownShift_def centerRepulsion_def springForce_def Let_def pushBy_def zeroForce_def)

lemma leaderPush_shift:
  "i < length fs \<Longrightarrow> i \<noteq> j \<Longrightarrow>
   leaderPush k ls i fs j =
     fs[i := pushBy (lon (leaderShift k (ls ! i) (ls ! j))) (lat (leaderShift k (ls ! i) (ls ! j)))
               (fs ! i)]"
  by (simp add: leaderPush_def leaderShift_def Let_def addForce_def zeroForce_def)

lemma leaderPush_self: "leaderPush k ls i fs i = fs"
  by (simp add: leaderPush_def)

lemma twins_ownShift: "twins a b \<Longrightarrow> ownShift s k b = ownShift s k a"
  by (simp add: twins_def ownShift_def centerRepulsion_def springForce_def Let_def)

lemma twins_leaderShift: "twins a b \<Longrightarrow> leaderShift k b a = leaderShift k a b"
  by (simp add: twins_def leaderShift_def labelBox_def Let_def)

lemma twins_vertexRepulsion:
  "twins a b \<Longrightarrow> vertexRepulsion s k b = vertexRepulsion s k a"
  by (intro ext) (simp add: twins_def vertexRepulsion_def Let_def)

lemma upt_1_2: "[Suc 0 ..< 2] = [1]"
  by (simp add: upt_rec)

lemma twin_forces_explicit:
  assumes tw: "twins a b"
    and sz: "0 \<le> width a" "0 \<le> height a" and k: "0 < k"
  shows "computeForces s k [a, b] =
     [pushBy (lon (leaderShift k a b)) (lat (leaderShift k a b))
        (pushBy (lon (ownShift s k a)) (lat (ownShift s k a))
           (pushBy (- fst (coincidentNudge s k a b)) (- snd (coincidentNudge s k a b))
              (foldl (vertexRepulsion s k a) zeroForce (allVertices [a, b])))),
      pushBy (lon (leaderShift k a b)) (lat (leaderShift k a b))
        (pushBy (lon (ownShift s k a)) (lat (ownShift s k a))
           (pushBy (fst (coincidentNudge s k a b)) (snd (coincidentNudge s k a b))
              (foldl (vertexRepulsion s k a) zeroForce (allVertices [a, b]))))]"
proof -
  define V where "V = foldl (vertexRepulsion s k a) zeroForce (allVertices [a, b])"
  obtain fx fy where f: "coincidentNudge s k a b = (fx, fy)"
    by (cases "coincidentNudge s k a b")
  define tx where "tx = lon (ownShift s k a)"
  define ty where "ty = lat (ownShift s k a)"
  define lx where "lx = lon (leaderShift k a b)"
  define ly where "ly = lat (leaderShift k a b)"
  from tw sz have szb: "0 \<le> width b" "0 \<le> height b" by (simp_all add: twins_def)
  from tw have pos: "labelLatLng b = labelLatLng a" by (simp add: twins_def)
  have pr: "pairRepulsion s k a b = Some (fx, fy)"
    using pairRepulsion_coincident [OF pos sz szb k, of s] f by simp
  have vf: "vertexForces s k [a, b] = [V, V]"
    by (simp add: vertexForces_def V_def twins_vertexRepulsion [OF tw])
  have r0: "labelRound s k [a, b] [V, V] 0 =
      [pushBy tx ty (pushBy (- fx) (- fy) V), pushBy fx fy V]"
    by (simp add: labelRound_def upt_1_2 applyPair_def pr addForce_def ownShift_push tx_def ty_def)
  have r1: "labelRound s k [a, b] [X, Y] (Suc 0) = [X, pushBy tx ty Y]" for X Y
    by (simp add: labelRound_def ownShift_push twins_ownShift [OF tw] tx_def ty_def)
  have l0: "leaderRound k [a, b] [X, Y] 0 = [pushBy lx ly X, Y]" for X Y
    by (simp add: leaderRound_def upt2 leaderPush_shift lx_def ly_def leaderPush_self)
  have l1: "leaderRound k [a, b] [X, Y] (Suc 0) = [X, pushBy lx ly Y]" for X Y
    by (simp add: leaderRound_def upt2 leaderPush_shift twins_leaderShift [OF tw] lx_def ly_def
        leaderPush_self)
  have "computeForces s k [a, b] =
      [pushBy lx ly (pushBy tx ty (pushBy (- fx) (- fy) V)),
       pushBy lx ly (pushBy tx ty (pushBy fx fy V))]"
    by (simp add: computeForces_def Let_def vf upt2 r0 r1 l0 l1)
  then show ?thesis
    unfolding V_def tx_def ty_def lx_def ly_def by (simp add: f)
qed

lemma twin_forces:
  assumes tw: "twins a b"
    and sz: "0 \<le> width a" "0 \<le> height a" and k: "0 < k"
  shows "lon (computeForces s k [a, b] ! 1) - lon (computeForces s k [a, b] ! 0)
           = 2 * fst (coincidentNudge s k a b) \<and>
         lat (computeForces s k [a, b] ! 1) - lat (computeForces s k [a, b] ! 0)
           = 2 * snd (coincidentNudge s k a b)"
  unfolding twin_forces_explicit [OF assms] by simp















end
